theory Spec2Isabelle
  imports Complex_Main
begin

section \<open>FlowDirectorSteepestDescent: data model\<close>

text \<open>
  The component of \<^verbatim>\<open>flow_director_steepestdescent.py\<close> is a class with two methods,
  \<^verbatim>\<open>__init__\<close> and \<^verbatim>\<open>run_one_step\<close>. Both work on a grid object that the caller owns
  and on numpy arrays that live in the grid's field dictionary. The embedding keeps

  \<^item> Python exceptions as values of \<open>exn\<close>;
  \<^item> numpy arrays as \<open>ndarray\<close>, one constructor per dtype kind (integer widths are not
    modelled: an integer array holds unbounded integers, a float array holds reals);
  \<^item> array objects in an explicit store \<open>heap\<close>, addressed by \<open>addr\<close>, because
    \<^verbatim>\<open>run_one_step\<close> writes into existing arrays by slice assignment;
  \<^item> the grid's field dictionary \<^verbatim>\<open>grid['node']\<close> as a map from field names to addresses;
  \<^item> the collaborators that are imported from elsewhere (the parent class, the grid's
    methods, \<^verbatim>\<open>flow_direction_DN.flow_directions\<close>) as parameters.
\<close>

datatype exn =
    NotImplementedError
  | KeyError string
  | ValueError
  | IndexError
  | OtherError nat

type_synonym addr = nat

datatype dtype = dt_bool | dt_int | dt_float

datatype ndarray = BoolArr "bool list" | IntArr "int list" | FloatArr "real list"

fun dtype_of :: "ndarray \<Rightarrow> dtype" where
  "dtype_of (BoolArr _) = dt_bool"
| "dtype_of (IntArr _) = dt_int"
| "dtype_of (FloatArr _) = dt_float"

fun len :: "ndarray \<Rightarrow> nat" where
  "len (BoolArr bs) = length bs"
| "len (IntArr ks) = length ks"
| "len (FloatArr xs) = length xs"

text \<open>
  The status codes are imported from \<^verbatim>\<open>landlab\<close>; the source compares the status array
  with two of them only.
\<close>

datatype node_status = FIXED_VALUE_BOUNDARY | FIXED_GRADIENT_BOUNDARY | OTHER_STATUS nat

text \<open>
  A grid: its class, given by the names of the classes in its method resolution order
  (\<^verbatim>\<open>isinstance(g, C)\<close> holds when \<^verbatim>\<open>C\<close> is one of them), the counter \<^verbatim>\<open>bc_set_code\<close>, and
  the node fields.
\<close>

record grid =
  grid_mro :: "string list"
  bc_set_code :: int
  at_node :: "string \<rightharpoonup> addr"

definition isinstance :: "grid \<Rightarrow> string \<Rightarrow> bool" where
  "isinstance g cls = (cls \<in> set (grid_mro g))"

text \<open>The attributes of the component (\<^verbatim>\<open>self\<close>); \<open>self_x\<close> stands for \<^verbatim>\<open>self._x\<close> or \<^verbatim>\<open>self.x\<close>.\<close>

record component =
  self_bc_set_code :: int
  self_elevs :: addr
  self_active_links :: "int list"
  self_activelink_tail :: "int list"
  self_activelink_head :: "int list"
  self_sink :: "int list"
  self_method :: string
  self_is_Voroni :: bool

record state =
  comp :: component
  grd :: grid
  heap :: "addr \<Rightarrow> ndarray"

datatype surface = FieldName string | Array addr

section \<open>Construction\<close>

text \<open>
  \<^verbatim>\<open>__init__\<close> first runs the constructor of the parent class \<^verbatim>\<open>FlowDirectorToOne\<close>, which
  is not part of this file: it is the parameter \<open>super_init\<close>, which either raises or gives
  the attributes it has set together with the grid and the store as it leaves them. Then
  the grid's class is tested.
\<close>

definition FlowDirectorSteepestDescent_init ::
  "(grid \<Rightarrow> (addr \<Rightarrow> ndarray) \<Rightarrow> surface \<Rightarrow> exn + state) \<Rightarrow>
   grid \<Rightarrow> (addr \<Rightarrow> ndarray) \<Rightarrow> surface \<Rightarrow> exn + state" where
  "FlowDirectorSteepestDescent_init super_init g h surf =
     (case super_init g h surf of
        Inl e \<Rightarrow> Inl e
      | Inr s \<Rightarrow>
          (let s1 = s\<lparr>comp := (comp s)\<lparr>self_is_Voroni :=
                      isinstance (grd s) ''VoronoiDelaunayGrid''\<rparr>\<rparr>
           in if \<not> self_is_Voroni (comp s1) then Inl NotImplementedError
              else Inr (s1\<lparr>comp := (comp s1)\<lparr>self_method := ''SteepestDescent''\<rparr>\<rparr>)))"

section \<open>Array operations used by \<^verbatim>\<open>run_one_step\<close>\<close>

text \<open>
  An assignment into an existing array converts the assigned values to the dtype of the
  target (numpy's unchecked cast: a float is cut towards zero, and one that does not fit
  a 64-bit integer becomes the least 64-bit integer; a number is true when it is not
  zero) and keeps the target's length.
\<close>

definition trunc :: "real \<Rightarrow> int" where
  "trunc x =
     (let k = (if 0 \<le> x then \<lfloor>x\<rfloor> else \<lceil>x\<rceil>)
      in if - (2 ^ 63) \<le> k \<and> k < 2 ^ 63 then k else - (2 ^ 63))"

fun as_bool :: "ndarray \<Rightarrow> bool list" where
  "as_bool (BoolArr bs) = bs"
| "as_bool (IntArr ks) = map (\<lambda>k. k \<noteq> 0) ks"
| "as_bool (FloatArr xs) = map (\<lambda>x. x \<noteq> 0) xs"

fun as_int :: "ndarray \<Rightarrow> int list" where
  "as_int (BoolArr bs) = map (\<lambda>b. if b then 1 else 0) bs"
| "as_int (IntArr ks) = ks"
| "as_int (FloatArr xs) = map trunc xs"

fun as_float :: "ndarray \<Rightarrow> real list" where
  "as_float (BoolArr bs) = map (\<lambda>b. if b then 1 else 0) bs"
| "as_float (IntArr ks) = map real_of_int ks"
| "as_float (FloatArr xs) = xs"

fun astype :: "dtype \<Rightarrow> ndarray \<Rightarrow> ndarray" where
  "astype dt_bool a = BoolArr (as_bool a)"
| "astype dt_int a = IntArr (as_int a)"
| "astype dt_float a = FloatArr (as_float a)"

text \<open>A one-element array repeated \<open>n\<close> times (broadcasting).\<close>

fun tile :: "nat \<Rightarrow> ndarray \<Rightarrow> ndarray" where
  "tile n (BoolArr bs) = BoolArr (replicate n (hd bs))"
| "tile n (IntArr ks) = IntArr (replicate n (hd ks))"
| "tile n (FloatArr xs) = FloatArr (replicate n (hd xs))"

definition broadcast_to :: "nat \<Rightarrow> ndarray \<Rightarrow> exn + ndarray" where
  "broadcast_to n a =
     (if len a = n then Inr a
      else if len a = 1 then Inr (tile n a)
      else Inl ValueError)"

text \<open>\<^verbatim>\<open>dst[:] = src\<close>\<close>

definition setitem_slice :: "ndarray \<Rightarrow> ndarray \<Rightarrow> exn + ndarray" where
  "setitem_slice dst src =
     (case broadcast_to (len dst) src of
        Inl e \<Rightarrow> Inl e
      | Inr b \<Rightarrow> Inr (astype (dtype_of dst) b))"

text \<open>\<^verbatim>\<open>numpy.zeros_like(a, dtype=bool)\<close>\<close>

definition zeros_like_bool :: "ndarray \<Rightarrow> ndarray" where
  "zeros_like_bool a = BoolArr (replicate (len a) False)"

text \<open>
  \<^verbatim>\<open>dst[idx] = True\<close> for an integer index array: an index \<open>k\<close> with \<open>-n \<le> k < 0\<close> counts from
  the end, any index outside \<open>-n \<le> k < n\<close> raises \<^verbatim>\<open>IndexError\<close> before anything is written.
\<close>

definition norm_index :: "nat \<Rightarrow> int \<Rightarrow> nat option" where
  "norm_index n k =
     (if 0 \<le> k \<and> k < int n then Some (nat k)
      else if - int n \<le> k \<and> k < 0 then Some (nat (k + int n))
      else None)"

fun put_True :: "nat \<Rightarrow> ndarray \<Rightarrow> ndarray" where
  "put_True i (BoolArr bs) = BoolArr (bs[i := True])"
| "put_True i (IntArr ks) = IntArr (ks[i := 1])"
| "put_True i (FloatArr xs) = FloatArr (xs[i := 1])"

definition setitem_True :: "ndarray \<Rightarrow> int list \<Rightarrow> exn + ndarray" where
  "setitem_True dst idx =
     (if list_all (\<lambda>k. norm_index (len dst) k \<noteq> None) idx
      then Inr (fold (\<lambda>k a. put_True (the (norm_index (len dst) k)) a) idx dst)
      else Inl IndexError)"

text \<open>\<^verbatim>\<open>numpy.where(b)\<close> of a one-dimensional boolean array: the positions that hold true.\<close>

definition where_true :: "bool list \<Rightarrow> nat list" where
  "where_true bs = filter (\<lambda>i. bs ! i) [0..<length bs]"

definition logical_or :: "bool list \<Rightarrow> bool list \<Rightarrow> bool list" where
  "logical_or xs ys = map2 (\<or>) xs ys"

section \<open>The collaborators of \<^verbatim>\<open>run_one_step\<close>\<close>

text \<open>
  The arguments of the call \<^verbatim>\<open>flow_direction_DN.flow_directions(self.elevs,
  self._active_links, self._activelink_tail, self._activelink_head, link_slope,
  grid=self._grid, baselevel_nodes=baselevel_nodes)\<close>.
\<close>

record fd_args =
  fd_elev :: ndarray
  fd_active_links :: "int list"
  fd_tail_node :: "int list"
  fd_head_node :: "int list"
  fd_link_slope :: "real list"
  fd_grid :: grid
  fd_baselevel_nodes :: "nat list"

text \<open>
  What \<^verbatim>\<open>run_one_step\<close> calls and does not define: the inherited method
  \<^verbatim>\<open>updated_boundary_conditions\<close>, the grid's \<^verbatim>\<open>calc_grad_of_active_link\<close> and
  \<^verbatim>\<open>status_at_node\<close>, and \<^verbatim>\<open>flow_directions\<close>. Each may raise. They read the grid and do not
  change it; \<^verbatim>\<open>updated_boundary_conditions\<close> gives the component's attributes as it leaves
  them, and a call that raises is taken to have changed nothing.
  \<^verbatim>\<open>flow_directions\<close> returns \<^verbatim>\<open>receiver, steepest_slope, sink, recvr_link\<close>: node ids, reals,
  an integer index array and link ids.
\<close>

record externals =
  updated_boundary_conditions :: "component \<Rightarrow> grid \<Rightarrow> exn + component"
  calc_grad_of_active_link :: "grid \<Rightarrow> ndarray \<Rightarrow> exn + real list"
  status_at_node :: "grid \<Rightarrow> exn + node_status list"
  flow_directions :: "fd_args \<Rightarrow> exn + (int list \<times> real list \<times> int list \<times> int list)"

text \<open>The calls made during a step are recorded in the order they are made.\<close>

datatype call =
    Call_updated_boundary_conditions
  | Call_calc_grad_of_active_link ndarray
  | Call_status_at_node
  | Call_flow_directions fd_args

record outcome =
  trace :: "call list"
  final :: state
  raised :: "exn option"

section \<open>\<^verbatim>\<open>run_one_step\<close>\<close>

text \<open>Step 0 (lines 100 to 102): check and update the boundary conditions.\<close>

definition check_and_update_bcs :: "externals \<Rightarrow> state \<Rightarrow> call list \<times> (exn + state)" where
  "check_and_update_bcs ext s =
     (if self_bc_set_code (comp s) \<noteq> bc_set_code (grd s) then
        (case updated_boundary_conditions ext (comp s) (grd s) of
           Inl e \<Rightarrow> ([Call_updated_boundary_conditions], Inl e)
         | Inr c \<Rightarrow>
             ([Call_updated_boundary_conditions],
              Inr (s\<lparr>comp := c\<lparr>self_bc_set_code := bc_set_code (grd s)\<rparr>\<rparr>)))
      else ([], Inr s))"

text \<open>Step 2 (lines 109 to 111), from the two reads of the status array.\<close>

definition find_baselevel_nodes :: "node_status list \<Rightarrow> node_status list \<Rightarrow> nat list" where
  "find_baselevel_nodes st1 st2 =
     where_true (logical_or (map (\<lambda>x. x = FIXED_VALUE_BOUNDARY) st1)
                            (map (\<lambda>x. x = FIXED_GRADIENT_BOUNDARY) st2))"

text \<open>Steps 1 and 2 and the call of the flow-direction algorithm (lines 105 to 120).\<close>

definition calculate_flow_directions ::
  "externals \<Rightarrow> state \<Rightarrow>
   call list \<times> (exn + (int list \<times> real list \<times> int list \<times> int list))" where
  "calculate_flow_directions ext s =
     (let elevs = heap s (self_elevs (comp s)) in
      case calc_grad_of_active_link ext (grd s) elevs of
        Inl e \<Rightarrow> ([Call_calc_grad_of_active_link elevs], Inl e)
      | Inr grad \<Rightarrow>
     (let link_slope = map uminus grad in
      case status_at_node ext (grd s) of
        Inl e \<Rightarrow> ([Call_calc_grad_of_active_link elevs, Call_status_at_node], Inl e)
      | Inr st1 \<Rightarrow>
     (case status_at_node ext (grd s) of
        Inl e \<Rightarrow>
          ([Call_calc_grad_of_active_link elevs, Call_status_at_node, Call_status_at_node],
           Inl e)
      | Inr st2 \<Rightarrow>
     (let baselevel_nodes = find_baselevel_nodes st1 st2;
          args = \<lparr>fd_elev = elevs,
                  fd_active_links = self_active_links (comp s),
                  fd_tail_node = self_activelink_tail (comp s),
                  fd_head_node = self_activelink_head (comp s),
                  fd_link_slope = link_slope,
                  fd_grid = grd s,
                  fd_baselevel_nodes = baselevel_nodes\<rparr>
      in ([Call_calc_grad_of_active_link elevs, Call_status_at_node, Call_status_at_node,
           Call_flow_directions args],
          flow_directions ext args)))))"

text \<open>
  \<^verbatim>\<open>self._grid['node'][name][...] = ...\<close>: the field is looked up by name (a missing field
  raises), and the array found there is overwritten in place.
\<close>

definition setitem_field ::
  "string \<Rightarrow> (ndarray \<Rightarrow> exn + ndarray) \<Rightarrow> state \<Rightarrow> exn + state" where
  "setitem_field name upd s =
     (case at_node (grd s) name of
        None \<Rightarrow> Inl (KeyError name)
      | Some a \<Rightarrow>
          (case upd (heap s a) of
             Inl e \<Rightarrow> Inl e
           | Inr arr \<Rightarrow> Inr (s\<lparr>heap := (heap s)(a := arr)\<rparr>)))"

text \<open>
  Lines 124 to 129. A statement that raises leaves the writes of the statements before it
  in place.
\<close>

definition save_outputs ::
  "int list \<Rightarrow> real list \<Rightarrow> int list \<Rightarrow> int list \<Rightarrow> state \<Rightarrow> exn option \<times> state" where
  "save_outputs receiver steepest_slope sink recvr_link s0 =
     (case setitem_field ''flow__receiver_node''
             (\<lambda>d. setitem_slice d (IntArr receiver)) s0 of
        Inl e \<Rightarrow> (Some e, s0)
      | Inr s1 \<Rightarrow>
     (case setitem_field ''topographic__steepest_slope''
             (\<lambda>d. setitem_slice d (FloatArr steepest_slope)) s1 of
        Inl e \<Rightarrow> (Some e, s1)
      | Inr s2 \<Rightarrow>
     (case setitem_field ''flow__link_to_receiver_node''
             (\<lambda>d. setitem_slice d (IntArr recvr_link)) s2 of
        Inl e \<Rightarrow> (Some e, s2)
      | Inr s3 \<Rightarrow>
     (case setitem_field ''flow__sink_flag''
             (\<lambda>d. setitem_slice d (zeros_like_bool (IntArr receiver))) s3 of
        Inl e \<Rightarrow> (Some e, s3)
      | Inr s4 \<Rightarrow>
     (case setitem_field ''flow__sink_flag'' (\<lambda>d. setitem_True d sink) s4 of
        Inl e \<Rightarrow> (Some e, s4)
      | Inr s5 \<Rightarrow> (None, s5))))))"

definition run_one_step :: "externals \<Rightarrow> state \<Rightarrow> outcome" where
  "run_one_step ext s =
     (case check_and_update_bcs ext s of
        (tr0, Inl e) \<Rightarrow> \<lparr>trace = tr0, final = s, raised = Some e\<rparr>
      | (tr0, Inr s1) \<Rightarrow>
     (case calculate_flow_directions ext s1 of
        (tr1, Inl e) \<Rightarrow> \<lparr>trace = tr0 @ tr1, final = s1, raised = Some e\<rparr>
      | (tr1, Inr (receiver, steepest_slope, sink, recvr_link)) \<Rightarrow>
     (let s2 = s1\<lparr>comp := (comp s1)\<lparr>self_sink := sink\<rparr>\<rparr>;
          (err, s3) = save_outputs receiver steepest_slope sink recvr_link s2
      in \<lparr>trace = tr0 @ tr1, final = s3, raised = err\<rparr>)))"

section \<open>The flow-direction algorithm\<close>

text \<open>
  Modelled from the spec: the constant \<^verbatim>\<open>BAD_INDEX_VALUE\<close> is imported, not defined in the
  source. The spec calls it the sentinel stored where a node has no link to a receiver;
  the example in the docstring of the class prints it as \<open>-1\<close>.
\<close>

definition BAD_INDEX_VALUE :: int where
  "BAD_INDEX_VALUE = - 1"

text \<open>
  Modelled from the spec: \<^verbatim>\<open>flow_direction_DN.flow_directions\<close> and the routine it runs over
  the links are imported by the source and are not defined in it. The spec says that each
  node gets a single receiver, a downslope neighbour it routes flow to, with the steepest
  downhill slope to that receiver and the connecting link; that a node with no receiver
  keeps its own id as receiver, slope zero and the sentinel as link; that slopes are
  non-negative; and that a sink is a node without a receiver. Base-level nodes route no
  flow onwards: in the docstring's example every boundary node is its own receiver.
\<close>

text \<open>
  Modelled from the spec: the pass over the active links inside
  \<^verbatim>\<open>flow_direction_DN.flow_directions\<close>. A link \<open>(lid, t, h, g)\<close> has the id \<open>lid\<close>, joins the
  tail node \<open>t\<close> and the head node \<open>h\<close>, and has the downhill gradient \<open>g\<close> from tail to head.
  The higher end of a link takes the lower end as receiver when the slope down the link is
  steeper than the steepest one found so far for it.
\<close>

fun adjust_flow_receivers ::
  "real list \<Rightarrow> (int \<times> nat \<times> nat \<times> real) list \<Rightarrow>
   int list \<times> real list \<times> int list \<Rightarrow> int list \<times> real list \<times> int list" where
  "adjust_flow_receivers z [] acc = acc"
| "adjust_flow_receivers z ((lid, t, h, g) # links) (r, s, l) =
     adjust_flow_receivers z links
       (if z ! h < z ! t \<and> s ! t < g then (r[t := int h], s[t := g], l[t := lid])
        else if z ! t < z ! h \<and> s ! h < - g then (r[h := int t], s[h := - g], l[h := lid])
        else (r, s, l))"

text \<open>
  Modelled from the spec: the treatment of the base-level nodes inside
  \<^verbatim>\<open>flow_direction_DN.flow_directions\<close>. A base-level node is its own receiver, with slope
  zero and no link.
\<close>

fun set_baselevel ::
  "nat list \<Rightarrow> int list \<times> real list \<times> int list \<Rightarrow> int list \<times> real list \<times> int list" where
  "set_baselevel [] acc = acc"
| "set_baselevel (b # bs) (r, s, l) =
     set_baselevel bs (r[b := int b], s[b := 0], l[b := BAD_INDEX_VALUE])"

text \<open>
  Modelled from the spec: \<^verbatim>\<open>flow_direction_DN.flow_directions\<close>. Every node starts as its own
  receiver with slope zero and the sentinel as link; then come the pass over the links
  and the base-level nodes; the sinks are the nodes that are their own receiver. Arrays
  of different lengths and node ids outside the grid raise. It returns
  \<^verbatim>\<open>receiver, steepest_slope, sink, recvr_link\<close>.
\<close>

definition flow_direction_DN_flow_directions ::
  "fd_args \<Rightarrow> exn + (int list \<times> real list \<times> int list \<times> int list)" where
  "flow_direction_DN_flow_directions a =
     (let z = as_float (fd_elev a);
          n = length z;
          m = length (fd_active_links a)
      in if length (fd_tail_node a) \<noteq> m \<or> length (fd_head_node a) \<noteq> m
            \<or> length (fd_link_slope a) \<noteq> m then Inl ValueError
         else if \<not> list_all (\<lambda>k. 0 \<le> k \<and> k < int n) (fd_tail_node a @ fd_head_node a)
           then Inl IndexError
         else if \<not> list_all (\<lambda>b. b < n) (fd_baselevel_nodes a) then Inl IndexError
         else
           (let links = zip (fd_active_links a)
                          (zip (map nat (fd_tail_node a))
                            (zip (map nat (fd_head_node a)) (fd_link_slope a)));
                (r, s, l) = set_baselevel (fd_baselevel_nodes a)
                              (adjust_flow_receivers z links
                                 (map int [0..<n], replicate n 0,
                                  replicate n BAD_INDEX_VALUE));
                sink = filter (\<lambda>k. r ! nat k = k) (map int [0..<n])
            in Inr (r, s, sink, l)))"

text \<open>
  What holds of the receivers \<open>r\<close>, the slopes \<open>s\<close> and the links \<open>l\<close> of \<open>n\<close> nodes throughout
  the pass over the links: no slope is negative, and a node that is its own receiver has
  no link.
\<close>

definition receivers_ok :: "nat \<Rightarrow> int list \<times> real list \<times> int list \<Rightarrow> bool" where
  "receivers_ok n acc =
     (case acc of (r, s, l) \<Rightarrow>
        length r = n \<and> length s = n \<and> length l = n
        \<and> (\<forall>i < n. 0 \<le> s ! i \<and> (r ! i = int i \<longrightarrow> l ! i = BAD_INDEX_VALUE)))"

section \<open>Reading the grid's fields\<close>

definition field :: "state \<Rightarrow> string \<Rightarrow> ndarray option" where
  "field s name = map_option (heap s) (at_node (grd s) name)"

text \<open>
  The four output fields as the parent constructor creates them and as the docstring
  prints them: four different arrays of one length, the receivers and the links integer,
  the slopes float. The sink flags may have any dtype (the docstring prints \<^verbatim>\<open>int8\<close>).
\<close>

definition fields_ok :: "state \<Rightarrow> bool" where
  "fields_ok s =
     (case (at_node (grd s) ''flow__receiver_node'',
            at_node (grd s) ''topographic__steepest_slope'',
            at_node (grd s) ''flow__link_to_receiver_node'',
            at_node (grd s) ''flow__sink_flag'') of
        (Some a1, Some a2, Some a3, Some a4) \<Rightarrow>
           distinct [a1, a2, a3, a4]
           \<and> dtype_of (heap s a1) = dt_int
           \<and> dtype_of (heap s a2) = dt_float
           \<and> dtype_of (heap s a3) = dt_int
           \<and> len (heap s a2) = len (heap s a1)
           \<and> len (heap s a3) = len (heap s a1)
           \<and> len (heap s a4) = len (heap s a1)
      | _ \<Rightarrow> False)"

text \<open>The addresses of the four arrays that \<^verbatim>\<open>run_one_step\<close> assigns into.\<close>

definition output_addrs :: "grid \<Rightarrow> addr set" where
  "output_addrs g =
     {a. at_node g ''flow__receiver_node'' = Some a
       \<or> at_node g ''topographic__steepest_slope'' = Some a
       \<or> at_node g ''flow__link_to_receiver_node'' = Some a
       \<or> at_node g ''flow__sink_flag'' = Some a}"

text \<open>
  Two states that differ at most in the contents of the arrays at the addresses in \<open>A\<close>,
  each array keeping its dtype and its length.
\<close>

definition unchanged_but :: "addr set \<Rightarrow> state \<Rightarrow> state \<Rightarrow> bool" where
  "unchanged_but A s s' =
     (grd s' = grd s \<and> comp s' = comp s
      \<and> (\<forall>a. a \<notin> A \<longrightarrow> heap s' a = heap s a)
      \<and> (\<forall>a. dtype_of (heap s' a) = dtype_of (heap s a)
             \<and> len (heap s' a) = len (heap s a)))"

section \<open>A small grid to run the definitions on\<close>

text \<open>
  Three nodes in a row with elevations \<open>0\<close>, \<open>1.5\<close> and \<open>1\<close>, two active links of length
  one, node \<open>0\<close> a fixed-value boundary. The boundary conditions have changed since the
  component cached them.
\<close>

definition example_grid :: grid where
  "example_grid =
     \<lparr>grid_mro = [''HexModelGrid'', ''VoronoiDelaunayGrid'', ''ModelGrid''],
      bc_set_code = 1,
      at_node = [''topographic__elevation'' \<mapsto> 0,
                 ''flow__receiver_node'' \<mapsto> 1,
                 ''topographic__steepest_slope'' \<mapsto> 2,
                 ''flow__link_to_receiver_node'' \<mapsto> 3,
                 ''flow__sink_flag'' \<mapsto> 4]\<rparr>"

definition example_heap :: "addr \<Rightarrow> ndarray" where
  "example_heap =
     (\<lambda>a. IntArr [])
       (0 := FloatArr [0, 3 / 2, 1],
        1 := IntArr [- 1, - 1, - 1],
        2 := FloatArr [0, 0, 0],
        3 := IntArr [- 1, - 1, - 1],
        4 := IntArr [0, 1, 0])"

definition example_comp :: component where
  "example_comp =
     \<lparr>self_bc_set_code = 0,
      self_elevs = 0,
      self_active_links = [0, 1],
      self_activelink_tail = [0, 1],
      self_activelink_head = [1, 2],
      self_sink = [],
      self_method = ''SteepestDescent'',
      self_is_Voroni = True\<rparr>"

definition example_state :: state where
  "example_state = \<lparr>comp = example_comp, grd = example_grid, heap = example_heap\<rparr>"

definition example_ext :: externals where
  "example_ext =
     \<lparr>updated_boundary_conditions = (\<lambda>c g. Inr c),
      calc_grad_of_active_link = (\<lambda>g z. Inr [3 / 2, - (1 / 2)]),
      status_at_node = (\<lambda>g. Inr [FIXED_VALUE_BOUNDARY, OTHER_STATUS 0, OTHER_STATUS 0]),
      flow_directions = flow_direction_DN_flow_directions\<rparr>"

text \<open>A parent constructor that stores the grid and the store it is given.\<close>

definition example_super_init :: "grid \<Rightarrow> (addr \<Rightarrow> ndarray) \<Rightarrow> surface \<Rightarrow> exn + state" where
  "example_super_init g h surf =
     Inr \<lparr>comp = example_comp\<lparr>self_bc_set_code := bc_set_code g\<rparr>, grd = g, heap = h\<rparr>"

definition raster_grid :: grid where
  "raster_grid = example_grid\<lparr>grid_mro := [''RasterModelGrid'', ''ModelGrid'']\<rparr>"

text \<open>The arguments the flow-direction algorithm is called with on this grid.\<close>

definition example_args :: fd_args where
  "example_args =
     \<lparr>fd_elev = FloatArr [0, 3 / 2, 1],
      fd_active_links = [0, 1],
      fd_tail_node = [0, 1],
      fd_head_node = [1, 2],
      fd_link_slope = [- (3 / 2), 1 / 2],
      fd_grid = example_grid,
      fd_baselevel_nodes = [0]\<rparr>"

text \<open>The store and the state after one step on this grid.\<close>

definition example_heap_after :: "addr \<Rightarrow> ndarray" where
  "example_heap_after =
     example_heap
       (1 := IntArr [0, 0, 2],
        2 := FloatArr [0, 3 / 2, 0],
        3 := IntArr [- 1, 0, - 1],
        4 := IntArr [1, 0, 1])"

definition example_state_after :: state where
  "example_state_after =
     \<lparr>comp = example_comp\<lparr>self_bc_set_code := 1, self_sink := [0, 2]\<rparr>,
      grd = example_grid, heap = example_heap_after\<rparr>"

text \<open>Collaborators that raise: the flow-direction algorithm, and the refresh of the caches.\<close>

definition failing_flow_ext :: externals where
  "failing_flow_ext = example_ext\<lparr>flow_directions := (\<lambda>a. Inl (OtherError 7))\<rparr>"

definition failing_bc_ext :: externals where
  "failing_bc_ext = example_ext\<lparr>updated_boundary_conditions := (\<lambda>c g. Inl (OtherError 3))\<rparr>"


text \<open>
  Modelled from the spec: the constructor of the parent class \<^verbatim>\<open>FlowDirectorToOne\<close>, which the
  source calls and does not define, as far as the spec describes it: it keeps the grid,
  and the elevations are either the array supplied or fetched by name from the grid's
  node fields. A name for which the grid has no field raises.
\<close>

definition field_super_init :: "grid \<Rightarrow> (addr \<Rightarrow> ndarray) \<Rightarrow> surface \<Rightarrow> exn + state" where
  "field_super_init g h surf =
     (case surf of
        Array a \<Rightarrow>
          Inr \<lparr>comp = example_comp\<lparr>self_bc_set_code := bc_set_code g, self_elevs := a\<rparr>,
               grd = g, heap = h\<rparr>
      | FieldName name \<Rightarrow>
          (case at_node g name of
             None \<Rightarrow> Inl (KeyError name)
           | Some a \<Rightarrow>
               Inr \<lparr>comp = example_comp\<lparr>self_bc_set_code := bc_set_code g, self_elevs := a\<rparr>,
                    grd = g, heap = h\<rparr>))"

text \<open>A raster grid without any node field.\<close>

definition bare_raster_grid :: grid where
  "bare_raster_grid =
     \<lparr>grid_mro = [''RasterModelGrid'', ''ModelGrid''], bc_set_code = 0, at_node = Map.empty\<rparr>"

section \<open>Facts about the steps of \<^verbatim>\<open>run_one_step\<close>\<close>

lemma check_and_update_bcs_Inr:
  assumes "check_and_update_bcs ext s = (tr, Inr s1)"
  shows "grd s1 = grd s" and "heap s1 = heap s"
    and "self_bc_set_code (comp s1) = bc_set_code (grd s)"
  using assms by (auto simp: check_and_update_bcs_def split: if_splits sum.splits)

lemma check_and_update_bcs_trace:
  "fst (check_and_update_bcs ext s) =
     (if self_bc_set_code (comp s) \<noteq> bc_set_code (grd s)
      then [Call_updated_boundary_conditions] else [])"
  by (simp add: check_and_update_bcs_def split: sum.splits)

lemma calculate_flow_directions_trace:
  "Call_updated_boundary_conditions \<notin> set (fst (calculate_flow_directions ext s))"
  by (simp add: calculate_flow_directions_def Let_def split: sum.splits)

lemma len_astype [simp]: "len (astype d a) = len a"
  by (cases d; cases a) simp_all

lemma dtype_of_astype [simp]: "dtype_of (astype d a) = d"
  by (cases d) simp_all

lemma len_tile [simp]: "len (tile n a) = n"
  by (cases a) simp_all

lemma broadcast_to_len: "broadcast_to n a = Inr b \<Longrightarrow> len b = n"
  by (auto simp: broadcast_to_def split: if_splits)

lemma setitem_slice_shape:
  "setitem_slice dst src = Inr arr \<Longrightarrow> dtype_of arr = dtype_of dst \<and> len arr = len dst"
  by (auto simp: setitem_slice_def split: sum.splits dest: broadcast_to_len)

lemma put_True_shape [simp]:
  "dtype_of (put_True i a) = dtype_of a" "len (put_True i a) = len a"
  by (cases a; simp)+

lemma fold_put_True_shape:
  "dtype_of (fold (\<lambda>k a. put_True (f k) a) idx a) = dtype_of a
   \<and> len (fold (\<lambda>k a. put_True (f k) a) idx a) = len a"
  by (induction idx arbitrary: a) simp_all

lemma setitem_True_shape:
  "setitem_True dst idx = Inr arr \<Longrightarrow> dtype_of arr = dtype_of dst \<and> len arr = len dst"
  by (auto simp: setitem_True_def fold_put_True_shape split: if_splits)

lemma unchanged_but_refl: "unchanged_but A s s"
  by (simp add: unchanged_but_def)

lemma unchanged_but_trans:
  "unchanged_but A s s' \<Longrightarrow> unchanged_but A s' s'' \<Longrightarrow> unchanged_but A s s''"
  by (simp add: unchanged_but_def)

lemma setitem_field_unchanged_but:
  assumes "setitem_field name upd s = Inr s'"
    and "\<And>a. at_node (grd s) name = Some a \<Longrightarrow> a \<in> A"
    and "\<And>d arr. upd d = Inr arr \<Longrightarrow> dtype_of arr = dtype_of d \<and> len arr = len d"
  shows "unchanged_but A s s'"
  using assms
  by (auto simp: setitem_field_def unchanged_but_def split: option.splits sum.splits)

lemma save_outputs_unchanged_but:
  assumes "save_outputs r sl sk l s = (err, s')"
  shows "unchanged_but (output_addrs (grd s)) s s'"
proof -
  let ?A = "output_addrs (grd s)"
  have step: "unchanged_but ?A s t \<Longrightarrow> setitem_field name upd t = Inr t'
      \<Longrightarrow> name \<in> {''flow__receiver_node'', ''topographic__steepest_slope'',
                   ''flow__link_to_receiver_node'', ''flow__sink_flag''}
      \<Longrightarrow> (\<And>d arr. upd d = Inr arr \<Longrightarrow> dtype_of arr = dtype_of d \<and> len arr = len d)
      \<Longrightarrow> unchanged_but ?A s t'" for t t' name upd
  proof -
    assume u: "unchanged_but ?A s t" and f: "setitem_field name upd t = Inr t'"
      and n: "name \<in> {''flow__receiver_node'', ''topographic__steepest_slope'',
                   ''flow__link_to_receiver_node'', ''flow__sink_flag''}"
      and sh: "\<And>d arr. upd d = Inr arr \<Longrightarrow> dtype_of arr = dtype_of d \<and> len arr = len d"
    have g: "grd t = grd s" using u by (simp add: unchanged_but_def)
    have "unchanged_but ?A t t'"
    proof (rule setitem_field_unchanged_but [OF f _ sh])
      fix a assume "at_node (grd t) name = Some a"
      with g n show "a \<in> ?A" by (auto simp: output_addrs_def)
    qed
    with u show ?thesis by (rule unchanged_but_trans)
  qed
  let ?f1 = "setitem_field ''flow__receiver_node'' (\<lambda>d. setitem_slice d (IntArr r))"
  let ?f2 = "setitem_field ''topographic__steepest_slope''
               (\<lambda>d. setitem_slice d (FloatArr sl))"
  let ?f3 = "setitem_field ''flow__link_to_receiver_node''
               (\<lambda>d. setitem_slice d (IntArr l))"
  let ?f4 = "setitem_field ''flow__sink_flag''
               (\<lambda>d. setitem_slice d (zeros_like_bool (IntArr r)))"
  let ?f5 = "setitem_field ''flow__sink_flag'' (\<lambda>d. setitem_True d sk)"
  show ?thesis
  proof (cases "?f1 s")
    case Inl
    with assms have "s' = s" by (simp add: save_outputs_def)
    then show ?thesis by (simp add: unchanged_but_refl)
  next
    case (Inr s1)
    have u1: "unchanged_but ?A s s1"
      by (rule step [OF unchanged_but_refl Inr]) (simp_all add: setitem_slice_shape)
    show ?thesis
    proof (cases "?f2 s1")
      case Inl
      with assms \<open>?f1 s = Inr s1\<close> have "s' = s1" by (simp add: save_outputs_def)
      with u1 show ?thesis by simp
    next
      case (Inr s2)
      note f2 = this
      have u2: "unchanged_but ?A s s2"
        by (rule step [OF u1 f2]) (simp_all add: setitem_slice_shape)
      show ?thesis
      proof (cases "?f3 s2")
        case Inl
        with assms \<open>?f1 s = Inr s1\<close> f2 have "s' = s2" by (simp add: save_outputs_def)
        with u2 show ?thesis by simp
      next
        case (Inr s3)
        note f3 = this
        have u3: "unchanged_but ?A s s3"
          by (rule step [OF u2 f3]) (simp_all add: setitem_slice_shape)
        show ?thesis
        proof (cases "?f4 s3")
          case Inl
          with assms \<open>?f1 s = Inr s1\<close> f2 f3 have "s' = s3"
            by (simp add: save_outputs_def)
          with u3 show ?thesis by simp
        next
          case (Inr s4)
          note f4 = this
          have u4: "unchanged_but ?A s s4"
            by (rule step [OF u3 f4]) (simp_all add: setitem_slice_shape)
          show ?thesis
          proof (cases "?f5 s4")
            case Inl
            with assms \<open>?f1 s = Inr s1\<close> f2 f3 f4 have "s' = s4"
              by (simp add: save_outputs_def)
            with u4 show ?thesis by simp
          next
            case (Inr s5)
            note f5 = this
            have u5: "unchanged_but ?A s s5"
              by (rule step [OF u4 f5]) (simp_all add: setitem_True_shape)
            from assms \<open>?f1 s = Inr s1\<close> f2 f3 f4 f5 have "s' = s5"
              by (simp add: save_outputs_def)
            with u5 show ?thesis by simp
          qed
        qed
      qed
    qed
  qed
qed

lemma run_one_step_cases [consumes 0, case_names bc_fail fd_fail saved]:
  obtains
    (bc_fail) tr0 e where
      "check_and_update_bcs ext s = (tr0, Inl e)"
      "run_one_step ext s = \<lparr>trace = tr0, final = s, raised = Some e\<rparr>"
  | (fd_fail) tr0 s1 tr1 e where
      "check_and_update_bcs ext s = (tr0, Inr s1)"
      "calculate_flow_directions ext s1 = (tr1, Inl e)"
      "run_one_step ext s = \<lparr>trace = tr0 @ tr1, final = s1, raised = Some e\<rparr>"
  | (saved) tr0 s1 tr1 r sl sk l err s3 where
      "check_and_update_bcs ext s = (tr0, Inr s1)"
      "calculate_flow_directions ext s1 = (tr1, Inr (r, sl, sk, l))"
      "save_outputs r sl sk l (s1\<lparr>comp := (comp s1)\<lparr>self_sink := sk\<rparr>\<rparr>) = (err, s3)"
      "run_one_step ext s = \<lparr>trace = tr0 @ tr1, final = s3, raised = err\<rparr>"
proof (cases "check_and_update_bcs ext s")
  case (Pair tr0 res)
  show ?thesis
  proof (cases res)
    case (Inl e)
    with Pair show ?thesis by (intro bc_fail [of tr0 e]) (simp_all add: run_one_step_def)
  next
    case (Inr s1)
    note s1 = this
    obtain tr1 res1 where c: "calculate_flow_directions ext s1 = (tr1, res1)"
      by (cases "calculate_flow_directions ext s1")
    show ?thesis
    proof (cases res1)
      case (Inl e)
      with Pair s1 c show ?thesis
        by (intro fd_fail [of tr0 s1 tr1 e]) (simp_all add: run_one_step_def)
    next
      case (Inr q)
      obtain r sl sk l where q: "q = (r, sl, sk, l)" by (cases q)
      obtain err s3 where
        sv: "save_outputs r sl sk l (s1\<lparr>comp := (comp s1)\<lparr>self_sink := sk\<rparr>\<rparr>) = (err, s3)"
        by (cases "save_outputs r sl sk l (s1\<lparr>comp := (comp s1)\<lparr>self_sink := sk\<rparr>\<rparr>)")
      from Pair s1 c Inr q sv show ?thesis
        by (intro saved [of tr0 s1 tr1 r sl sk l err s3]) (simp_all add: run_one_step_def)
    qed
  qed
qed

section \<open>The run on the small grid\<close>

lemma example_check:
  "check_and_update_bcs example_ext example_state =
     ([Call_updated_boundary_conditions],
      Inr (example_state\<lparr>comp := example_comp\<lparr>self_bc_set_code := 1\<rparr>\<rparr>))"
  by (simp add: check_and_update_bcs_def example_ext_def example_state_def example_comp_def example_grid_def)

lemma example_baselevel:
  "find_baselevel_nodes [FIXED_VALUE_BOUNDARY, OTHER_STATUS 0, OTHER_STATUS 0]
      [FIXED_VALUE_BOUNDARY, OTHER_STATUS 0, OTHER_STATUS 0] = [0]"
  by code_simp

lemma example_flow:
  "flow_direction_DN_flow_directions example_args = Inr ([0, 0, 2], [0, 3 / 2, 0], [0, 2], [- 1, 0, - 1])"
  by (simp add: flow_direction_DN_flow_directions_def example_args_def Let_def
       BAD_INDEX_VALUE_def)

lemma example_calc:
  "calculate_flow_directions example_ext
      (example_state\<lparr>comp := example_comp\<lparr>self_bc_set_code := 1\<rparr>\<rparr>) =
     ([Call_calc_grad_of_active_link (FloatArr [0, 3 / 2, 1]), Call_status_at_node,
       Call_status_at_node, Call_flow_directions example_args],
      Inr ([0, 0, 2], [0, 3 / 2, 0], [0, 2], [- 1, 0, - 1]))"
proof -
  have h: "heap example_state 0 = FloatArr [0, 3 / 2, 1]"
    by (simp add: example_state_def example_heap_def)
  show ?thesis
    by (simp add: calculate_flow_directions_def Let_def example_ext_def example_baselevel
        example_state_def example_heap_def example_comp_def
        example_flow [unfolded example_args_def] example_args_def)
qed

lemma example_at_node:
  "at_node example_grid ''flow__receiver_node'' = Some 1"
  "at_node example_grid ''topographic__steepest_slope'' = Some 2"
  "at_node example_grid ''flow__link_to_receiver_node'' = Some 3"
  "at_node example_grid ''flow__sink_flag'' = Some 4"
  by (simp_all add: example_grid_def)

lemma example_heap_at:
  "example_heap 0 = FloatArr [0, 3 / 2, 1]"
  "example_heap (Suc 0) = IntArr [- 1, - 1, - 1]"
  "example_heap 2 = FloatArr [0, 0, 0]"
  "example_heap 3 = IntArr [- 1, - 1, - 1]"
  "example_heap 4 = IntArr [0, 1, 0]"
  by (simp_all add: example_heap_def)

lemma example_setitem_True: "setitem_True (IntArr [0, 0, 0]) [0, 2] = Inr (IntArr [1, 0, 1])"
  by (simp add: setitem_True_def norm_index_def)

lemma example_save:
  "save_outputs [0, 0, 2] [0, 3 / 2, 0] [0, 2] [- 1, 0, - 1]
     \<lparr>comp = example_comp\<lparr>self_bc_set_code := 1, self_sink := [0, 2]\<rparr>,
      grd = example_grid, heap = example_heap\<rparr> = (None, example_state_after)"
  by (simp add: save_outputs_def setitem_field_def example_at_node example_heap_at
      setitem_slice_def broadcast_to_def zeros_like_bool_def example_setitem_True
      example_state_after_def example_heap_after_def)

lemma example_run:
  "run_one_step example_ext example_state =
     \<lparr>trace = [Call_updated_boundary_conditions,
               Call_calc_grad_of_active_link (FloatArr [0, 3 / 2, 1]),
               Call_status_at_node, Call_status_at_node,
               Call_flow_directions example_args],
      final = example_state_after, raised = None\<rparr>"
  using example_save
  by (simp add: run_one_step_def example_check example_calc)
     (simp add: example_state_def)

section \<open>Construction fails on a grid that is not a Voronoi grid\<close>

text \<open>
  Claim C2. An exception of the parent constructor is the result of \<^verbatim>\<open>__init__\<close>, whatever
  the grid is. When the parent constructor has returned, \<^verbatim>\<open>__init__\<close> raises
  \<^verbatim>\<open>NotImplementedError\<close> exactly when the grid it holds is not an instance of
  \<^verbatim>\<open>VoronoiDelaunayGrid\<close>, which is the grid it was given when the parent constructor kept
  that one; for an instance, a subclass such as \<^verbatim>\<open>HexModelGrid\<close> included, it returns the
  component with \<^verbatim>\<open>method = 'SteepestDescent'\<close>. The error is the result of the constructor
  itself, so no component exists on which a step could run.
\<close>

theorem init_NotImplementedError_iff:
  "(\<forall>e. super_init g h surf = Inl e \<longrightarrow>
        FlowDirectorSteepestDescent_init super_init g h surf = Inl e)
   \<and> (\<forall>s. super_init g h surf = Inr s \<longrightarrow>
        (FlowDirectorSteepestDescent_init super_init g h surf = Inl NotImplementedError
           \<longleftrightarrow> \<not> isinstance (grd s) ''VoronoiDelaunayGrid'')
        \<and> (isinstance (grd s) ''VoronoiDelaunayGrid'' \<longrightarrow>
              FlowDirectorSteepestDescent_init super_init g h surf
                = Inr (s\<lparr>comp := (comp s)\<lparr>self_method := ''SteepestDescent'',
                                             self_is_Voroni := True\<rparr>\<rparr>))
        \<and> (grid_mro (grd s) = grid_mro g \<longrightarrow>
             (FlowDirectorSteepestDescent_init super_init g h surf = Inl NotImplementedError
                \<longleftrightarrow> \<not> isinstance g ''VoronoiDelaunayGrid'')))"
  by (simp add: FlowDirectorSteepestDescent_init_def isinstance_def Let_def)

theorem init_NotImplementedError_iff_witness:
  "example_super_init raster_grid example_heap (FieldName ''topographic__elevation'')
     = Inr \<lparr>comp = example_comp\<lparr>self_bc_set_code := bc_set_code raster_grid\<rparr>,
           grd = raster_grid, heap = example_heap\<rparr>
   \<and> FlowDirectorSteepestDescent_init example_super_init raster_grid example_heap
       (FieldName ''topographic__elevation'') = Inl NotImplementedError
   \<and> \<not> isinstance raster_grid ''VoronoiDelaunayGrid''
   \<and> isinstance example_grid ''VoronoiDelaunayGrid''
   \<and> FlowDirectorSteepestDescent_init example_super_init example_grid example_heap
       (FieldName ''topographic__elevation'') \<noteq> Inl NotImplementedError
   \<and> field_super_init bare_raster_grid example_heap (FieldName ''topographic__elevation'')
       = Inl (KeyError ''topographic__elevation'')
   \<and> FlowDirectorSteepestDescent_init field_super_init bare_raster_grid example_heap
       (FieldName ''topographic__elevation'') = Inl (KeyError ''topographic__elevation'')"
proof -
  let ?surf = "FieldName ''topographic__elevation''"
  have r: "\<not> isinstance raster_grid ''VoronoiDelaunayGrid''"
    by (simp add: isinstance_def raster_grid_def)
  have e: "isinstance example_grid ''VoronoiDelaunayGrid''"
    by (simp add: isinstance_def example_grid_def)
  have s1: "example_super_init raster_grid example_heap ?surf =
      Inr \<lparr>comp = example_comp\<lparr>self_bc_set_code := bc_set_code raster_grid\<rparr>,
           grd = raster_grid, heap = example_heap\<rparr>"
    by (simp add: example_super_init_def)
  have s2: "example_super_init example_grid example_heap ?surf =
      Inr \<lparr>comp = example_comp\<lparr>self_bc_set_code := bc_set_code example_grid\<rparr>,
           grd = example_grid, heap = example_heap\<rparr>"
    by (simp add: example_super_init_def)
  have s3: "field_super_init bare_raster_grid example_heap ?surf
       = Inl (KeyError ''topographic__elevation'')"
    by (simp add: field_super_init_def bare_raster_grid_def)
  from init_NotImplementedError_iff [of example_super_init raster_grid example_heap ?surf]
    init_NotImplementedError_iff [of example_super_init example_grid example_heap ?surf]
    init_NotImplementedError_iff [of field_super_init bare_raster_grid example_heap ?surf]
    r e s1 s2 s3
  show ?thesis by simp
qed

text \<open>
  The claim C2 as it is written fails: on a raster grid that has no field of the name
  given as surface, the parent constructor raises first, and the exception is not
  \<^verbatim>\<open>NotImplementedError\<close> although the grid is not a Voronoi grid.
\<close>

theorem init_NotImplementedError_counterexample:
  "\<not> (FlowDirectorSteepestDescent_init field_super_init bare_raster_grid example_heap
         (FieldName ''topographic__elevation'') = Inl NotImplementedError
       \<longleftrightarrow> \<not> isinstance bare_raster_grid ''VoronoiDelaunayGrid'')"
  by (simp add: FlowDirectorSteepestDescent_init_def field_super_init_def
      bare_raster_grid_def isinstance_def)

section \<open>The boundary-condition cache\<close>

lemma calculate_flow_directions_ubc_irrelevant:
  "calculate_flow_directions (ext\<lparr>updated_boundary_conditions := u\<rparr>) s
     = calculate_flow_directions ext s"
  by (simp add: calculate_flow_directions_def Let_def split: sum.splits)

lemma run_one_step_ubc_in_trace:
  "Call_updated_boundary_conditions \<in> set (trace (run_one_step ext s))
     \<longleftrightarrow> self_bc_set_code (comp s) \<noteq> bc_set_code (grd s)"
proof (cases rule: run_one_step_cases [of ext s])
  case (bc_fail tr0 e)
  with check_and_update_bcs_trace [of ext s] show ?thesis by (simp split: if_splits)
next
  case (fd_fail tr0 s1 tr1 e)
  with check_and_update_bcs_trace [of ext s] calculate_flow_directions_trace [of ext s1]
  show ?thesis by (simp split: if_splits)
next
  case (saved tr0 s1 tr1 r sl sk l err s3)
  with check_and_update_bcs_trace [of ext s] calculate_flow_directions_trace [of ext s1]
  show ?thesis by (simp split: if_splits)
qed

lemma run_one_step_equal_codes:
  assumes "self_bc_set_code (comp s) = bc_set_code (grd s)"
  shows "run_one_step ext s =
     (case calculate_flow_directions ext s of
        (tr1, Inl e) \<Rightarrow> \<lparr>trace = tr1, final = s, raised = Some e\<rparr>
      | (tr1, Inr (receiver, steepest_slope, sink, recvr_link)) \<Rightarrow>
     (let s2 = s\<lparr>comp := (comp s)\<lparr>self_sink := sink\<rparr>\<rparr>;
          (err, s3) = save_outputs receiver steepest_slope sink recvr_link s2
      in \<lparr>trace = tr1, final = s3, raised = err\<rparr>))"
  using assms by (simp add: run_one_step_def check_and_update_bcs_def)

lemma run_one_step_refreshed:
  assumes "self_bc_set_code (comp s) \<noteq> bc_set_code (grd s)"
    and "updated_boundary_conditions ext (comp s) (grd s) = Inr c"
  shows "run_one_step ext s =
     (run_one_step ext (s\<lparr>comp := c\<lparr>self_bc_set_code := bc_set_code (grd s)\<rparr>\<rparr>))
       \<lparr>trace := Call_updated_boundary_conditions
          # trace (run_one_step ext (s\<lparr>comp := c\<lparr>self_bc_set_code := bc_set_code (grd s)\<rparr>\<rparr>))\<rparr>"
proof -
  let ?s1 = "s\<lparr>comp := c\<lparr>self_bc_set_code := bc_set_code (grd s)\<rparr>\<rparr>"
  have eq: "self_bc_set_code (comp ?s1) = bc_set_code (grd ?s1)" by simp
  have chk: "check_and_update_bcs ext s = ([Call_updated_boundary_conditions], Inr ?s1)"
    using assms by (simp add: check_and_update_bcs_def)
  show ?thesis
    unfolding run_one_step_equal_codes [OF eq]
    by (simp add: run_one_step_def chk Let_def split: prod.splits sum.splits)
qed

text \<open>
  Claim C7. When the cached \<^verbatim>\<open>_bc_set_code\<close> equals the grid's \<^verbatim>\<open>bc_set_code\<close> at the start of
  the call, \<^verbatim>\<open>run_one_step\<close> does not call \<^verbatim>\<open>updated_boundary_conditions\<close>: the call is not in
  the trace and the step is the same whatever that method would do. When they differ, the
  method is called on the component and the grid as they are at the start: if it raises,
  the step raises the same exception at once; if it returns, the step goes on from the
  component it returned, with the cached code set to the grid's. After a call that
  completes the cached code equals the grid's code, which the step has not changed.
\<close>

theorem updated_boundary_conditions_called_iff:
  "(self_bc_set_code (comp s) = bc_set_code (grd s) \<longrightarrow>
      Call_updated_boundary_conditions \<notin> set (trace (run_one_step ext s))
      \<and> (\<forall>u. run_one_step (ext\<lparr>updated_boundary_conditions := u\<rparr>) s = run_one_step ext s))
   \<and> (self_bc_set_code (comp s) \<noteq> bc_set_code (grd s) \<longrightarrow>
      Call_updated_boundary_conditions \<in> set (trace (run_one_step ext s))
      \<and> (\<forall>e. updated_boundary_conditions ext (comp s) (grd s) = Inl e \<longrightarrow>
            run_one_step ext s
              = \<lparr>trace = [Call_updated_boundary_conditions], final = s, raised = Some e\<rparr>)
      \<and> (\<forall>c. updated_boundary_conditions ext (comp s) (grd s) = Inr c \<longrightarrow>
            run_one_step ext s
              = (run_one_step ext (s\<lparr>comp := c\<lparr>self_bc_set_code := bc_set_code (grd s)\<rparr>\<rparr>))
                  \<lparr>trace := Call_updated_boundary_conditions
                     # trace (run_one_step ext
                         (s\<lparr>comp := c\<lparr>self_bc_set_code := bc_set_code (grd s)\<rparr>\<rparr>))\<rparr>))
   \<and> (raised (run_one_step ext s) = None \<longrightarrow>
        self_bc_set_code (comp (final (run_one_step ext s)))
          = bc_set_code (grd (final (run_one_step ext s)))
        \<and> bc_set_code (grd (final (run_one_step ext s))) = bc_set_code (grd s))"
proof (intro conjI impI allI)
  assume eq: "self_bc_set_code (comp s) = bc_set_code (grd s)"
  from run_one_step_ubc_in_trace [of ext s] eq
  show "Call_updated_boundary_conditions \<notin> set (trace (run_one_step ext s))" by simp
  fix u
  show "run_one_step (ext\<lparr>updated_boundary_conditions := u\<rparr>) s = run_one_step ext s"
    by (simp add: run_one_step_equal_codes [OF eq] calculate_flow_directions_ubc_irrelevant)
next
  assume ne: "self_bc_set_code (comp s) \<noteq> bc_set_code (grd s)"
  from run_one_step_ubc_in_trace [of ext s] ne
  show "Call_updated_boundary_conditions \<in> set (trace (run_one_step ext s))" by simp
  fix e assume "updated_boundary_conditions ext (comp s) (grd s) = Inl e"
  with ne show "run_one_step ext s
      = \<lparr>trace = [Call_updated_boundary_conditions], final = s, raised = Some e\<rparr>"
    by (simp add: run_one_step_def check_and_update_bcs_def)
next
  fix c
  assume "self_bc_set_code (comp s) \<noteq> bc_set_code (grd s)"
    and "updated_boundary_conditions ext (comp s) (grd s) = Inr c"
  then show "run_one_step ext s
      = (run_one_step ext (s\<lparr>comp := c\<lparr>self_bc_set_code := bc_set_code (grd s)\<rparr>\<rparr>))
          \<lparr>trace := Call_updated_boundary_conditions
             # trace (run_one_step ext
                 (s\<lparr>comp := c\<lparr>self_bc_set_code := bc_set_code (grd s)\<rparr>\<rparr>))\<rparr>"
    by (rule run_one_step_refreshed)
next
  assume fin: "raised (run_one_step ext s) = None"
  show "self_bc_set_code (comp (final (run_one_step ext s)))
          = bc_set_code (grd (final (run_one_step ext s)))"
  proof (cases rule: run_one_step_cases [of ext s])
    case (bc_fail tr0 e)
    with fin show ?thesis by simp
  next
    case (fd_fail tr0 s1 tr1 e)
    with fin show ?thesis by simp
  next
    case (saved tr0 s1 tr1 r sl sk l err s3)
    from save_outputs_unchanged_but [OF saved(3)]
    have "grd s3 = grd s1" "comp s3 = (comp s1)\<lparr>self_sink := sk\<rparr>"
      by (simp_all add: unchanged_but_def)
    with saved check_and_update_bcs_Inr [OF saved(1)] show ?thesis by simp
  qed
  show "bc_set_code (grd (final (run_one_step ext s))) = bc_set_code (grd s)"
  proof (cases rule: run_one_step_cases [of ext s])
    case (bc_fail tr0 e)
    then show ?thesis by simp
  next
    case (fd_fail tr0 s1 tr1 e)
    with check_and_update_bcs_Inr [OF fd_fail(1)] show ?thesis by simp
  next
    case (saved tr0 s1 tr1 r sl sk l err s3)
    from save_outputs_unchanged_but [OF saved(3)]
    have "grd s3 = grd s1" by (simp add: unchanged_but_def)
    with saved check_and_update_bcs_Inr [OF saved(1)] show ?thesis by simp
  qed
qed

theorem updated_boundary_conditions_called_iff_witness:
  "self_bc_set_code (comp example_state) \<noteq> bc_set_code (grd example_state)
   \<and> Call_updated_boundary_conditions \<in> set (trace (run_one_step example_ext example_state))
   \<and> updated_boundary_conditions example_ext (comp example_state) (grd example_state)
       = Inr example_comp
   \<and> run_one_step example_ext example_state
       = (run_one_step example_ext
            (example_state\<lparr>comp := example_comp\<lparr>self_bc_set_code := 1\<rparr>\<rparr>))
           \<lparr>trace := Call_updated_boundary_conditions
              # trace (run_one_step example_ext
                  (example_state\<lparr>comp := example_comp\<lparr>self_bc_set_code := 1\<rparr>\<rparr>))\<rparr>
   \<and> raised (run_one_step example_ext example_state) = None
   \<and> self_bc_set_code (comp (final (run_one_step example_ext example_state))) = 1
   \<and> bc_set_code (grd (final (run_one_step example_ext example_state))) = 1
   \<and> self_bc_set_code (comp example_state_after) = bc_set_code (grd example_state_after)
   \<and> Call_updated_boundary_conditions
        \<notin> set (trace (run_one_step example_ext example_state_after))
   \<and> run_one_step (example_ext\<lparr>updated_boundary_conditions := (\<lambda>c g. Inl (OtherError 3))\<rparr>)
         example_state_after
       = run_one_step example_ext example_state_after"
proof -
  have differ: "self_bc_set_code (comp example_state) \<noteq> bc_set_code (grd example_state)"
    by (simp add: example_state_def example_comp_def example_grid_def)
  have u: "updated_boundary_conditions example_ext (comp example_state) (grd example_state)
       = Inr example_comp"
    by (simp add: example_ext_def example_state_def)
  have g: "bc_set_code (grd example_state) = 1"
    by (simp add: example_state_def example_grid_def)
  have same: "self_bc_set_code (comp example_state_after) = bc_set_code (grd example_state_after)"
    by (simp add: example_state_after_def example_grid_def)
  have r: "raised (run_one_step example_ext example_state) = None"
    "self_bc_set_code (comp (final (run_one_step example_ext example_state))) = 1"
    by (simp_all add: example_run example_state_after_def)
  note T = updated_boundary_conditions_called_iff [of example_state example_ext]
  from T differ have a1: "Call_updated_boundary_conditions
        \<in> set (trace (run_one_step example_ext example_state))"
    by blast
  from T differ u have "run_one_step example_ext example_state
       = (run_one_step example_ext
            (example_state\<lparr>comp := example_comp\<lparr>self_bc_set_code :=
               bc_set_code (grd example_state)\<rparr>\<rparr>))
           \<lparr>trace := Call_updated_boundary_conditions
              # trace (run_one_step example_ext
                  (example_state\<lparr>comp := example_comp\<lparr>self_bc_set_code :=
                     bc_set_code (grd example_state)\<rparr>\<rparr>))\<rparr>"
    by blast
  then have a2: "run_one_step example_ext example_state
       = (run_one_step example_ext
            (example_state\<lparr>comp := example_comp\<lparr>self_bc_set_code := 1\<rparr>\<rparr>))
           \<lparr>trace := Call_updated_boundary_conditions
              # trace (run_one_step example_ext
                  (example_state\<lparr>comp := example_comp\<lparr>self_bc_set_code := 1\<rparr>\<rparr>))\<rparr>"
    unfolding g .
  from T r(1) have "bc_set_code (grd (final (run_one_step example_ext example_state)))
      = bc_set_code (grd example_state)"
    by blast
  then have a3: "bc_set_code (grd (final (run_one_step example_ext example_state))) = 1"
    unfolding g .
  note U = updated_boundary_conditions_called_iff [of example_state_after example_ext]
  from U same have b1: "Call_updated_boundary_conditions
        \<notin> set (trace (run_one_step example_ext example_state_after))"
    by blast
  from U same have b2:
    "run_one_step (example_ext\<lparr>updated_boundary_conditions := (\<lambda>c g. Inl (OtherError 3))\<rparr>)
         example_state_after
       = run_one_step example_ext example_state_after"
    by blast
  show ?thesis
    by (intro conjI) (rule differ a1 u a2 r a3 same b1 b2)+
qed

section \<open>The base-level nodes\<close>

lemma set_where_true: "set (where_true bs) = {i. i < length bs \<and> bs ! i}"
  by (auto simp: where_true_def)

lemma set_find_baselevel_nodes:
  "set (find_baselevel_nodes st st) =
     {i. i < length st \<and> (st ! i = FIXED_VALUE_BOUNDARY \<or> st ! i = FIXED_GRADIENT_BOUNDARY)}"
  by (auto simp: find_baselevel_nodes_def set_where_true logical_or_def)

lemma check_and_update_bcs_no_flow_call:
  "Call_flow_directions a \<notin> set (fst (check_and_update_bcs ext s))"
  by (simp add: check_and_update_bcs_trace)

lemma calculate_flow_directions_call:
  assumes "Call_flow_directions a \<in> set (fst (calculate_flow_directions ext s))"
  shows "\<exists>st grad. status_at_node ext (grd s) = Inr st
           \<and> calc_grad_of_active_link ext (grd s) (heap s (self_elevs (comp s))) = Inr grad
           \<and> a = \<lparr>fd_elev = heap s (self_elevs (comp s)),
                   fd_active_links = self_active_links (comp s),
                   fd_tail_node = self_activelink_tail (comp s),
                   fd_head_node = self_activelink_head (comp s),
                   fd_link_slope = map uminus grad,
                   fd_grid = grd s,
                   fd_baselevel_nodes = find_baselevel_nodes st st\<rparr>"
  using assms
  by (auto simp: calculate_flow_directions_def Let_def split: sum.splits)

lemma calculate_flow_directions_Inr:
  assumes "calculate_flow_directions ext s = (tr, Inr q)"
  shows "\<exists>a. Call_flow_directions a \<in> set tr \<and> flow_directions ext a = Inr q
           \<and> fd_elev a = heap s (self_elevs (comp s))"
  using assms
  by (auto simp: calculate_flow_directions_def Let_def split: sum.splits)

lemma run_one_step_trace_flow_call:
  assumes "Call_flow_directions a \<in> set (trace (run_one_step ext s))"
  shows "\<exists>tr0 s1. check_and_update_bcs ext s = (tr0, Inr s1)
           \<and> Call_flow_directions a \<in> set (fst (calculate_flow_directions ext s1))"
proof (cases rule: run_one_step_cases [of ext s])
  case (bc_fail tr0 e)
  with assms check_and_update_bcs_no_flow_call [of a ext s] show ?thesis by simp
next
  case (fd_fail tr0 s1 tr1 e)
  with assms check_and_update_bcs_no_flow_call [of a ext s] show ?thesis by simp
next
  case (saved tr0 s1 tr1 r sl sk l err s3)
  with assms check_and_update_bcs_no_flow_call [of a ext s] show ?thesis by simp
qed

lemma sorted_where_true: "sorted (where_true bs) \<and> distinct (where_true bs)"
  by (simp add: where_true_def sorted_wrt_filter)

text \<open>
  Claim C6. The base-level nodes that \<^verbatim>\<open>run_one_step\<close> passes to the flow-direction algorithm
  are exactly the positions of the status array that hold \<^verbatim>\<open>FIXED_VALUE_BOUNDARY\<close> or
  \<^verbatim>\<open>FIXED_GRADIENT_BOUNDARY\<close>, in ascending order and each once. This holds of every call
  recorded in the trace, and of the argument the algorithm is applied to: once the
  boundary conditions are checked and the gradients and the status array are read, the
  step ends as the algorithm's result at that argument makes it end.
\<close>

theorem baselevel_nodes_passed:
  "(\<forall>a. Call_flow_directions a \<in> set (trace (run_one_step ext s)) \<longrightarrow>
      (\<exists>st. status_at_node ext (grd s) = Inr st
         \<and> set (fd_baselevel_nodes a) =
             {i. i < length st \<and>
                 (st ! i = FIXED_VALUE_BOUNDARY \<or> st ! i = FIXED_GRADIENT_BOUNDARY)}))
   \<and> (\<forall>tr0 s1 grad st.
        check_and_update_bcs ext s = (tr0, Inr s1)
        \<and> calc_grad_of_active_link ext (grd s1) (heap s1 (self_elevs (comp s1))) = Inr grad
        \<and> status_at_node ext (grd s) = Inr st \<longrightarrow>
        (\<exists>bl. set bl = {i. i < length st \<and>
                   (st ! i = FIXED_VALUE_BOUNDARY \<or> st ! i = FIXED_GRADIENT_BOUNDARY)}
           \<and> sorted bl \<and> distinct bl
           \<and> trace (run_one_step ext s)
               = tr0 @ [Call_calc_grad_of_active_link (heap s1 (self_elevs (comp s1))),
                        Call_status_at_node, Call_status_at_node,
                        Call_flow_directions
                          \<lparr>fd_elev = heap s1 (self_elevs (comp s1)),
                           fd_active_links = self_active_links (comp s1),
                           fd_tail_node = self_activelink_tail (comp s1),
                           fd_head_node = self_activelink_head (comp s1),
                           fd_link_slope = map uminus grad,
                           fd_grid = grd s1,
                           fd_baselevel_nodes = bl\<rparr>]
           \<and> (\<forall>e. flow_directions ext
                      \<lparr>fd_elev = heap s1 (self_elevs (comp s1)),
                       fd_active_links = self_active_links (comp s1),
                       fd_tail_node = self_activelink_tail (comp s1),
                       fd_head_node = self_activelink_head (comp s1),
                       fd_link_slope = map uminus grad,
                       fd_grid = grd s1,
                       fd_baselevel_nodes = bl\<rparr> = Inl e \<longrightarrow>
                  final (run_one_step ext s) = s1
                  \<and> raised (run_one_step ext s) = Some e)
           \<and> (\<forall>r sl sk l. flow_directions ext
                      \<lparr>fd_elev = heap s1 (self_elevs (comp s1)),
                       fd_active_links = self_active_links (comp s1),
                       fd_tail_node = self_activelink_tail (comp s1),
                       fd_head_node = self_activelink_head (comp s1),
                       fd_link_slope = map uminus grad,
                       fd_grid = grd s1,
                       fd_baselevel_nodes = bl\<rparr> = Inr (r, sl, sk, l) \<longrightarrow>
                  final (run_one_step ext s)
                    = snd (save_outputs r sl sk l (s1\<lparr>comp := (comp s1)\<lparr>self_sink := sk\<rparr>\<rparr>))
                  \<and> raised (run_one_step ext s)
                    = fst (save_outputs r sl sk l
                             (s1\<lparr>comp := (comp s1)\<lparr>self_sink := sk\<rparr>\<rparr>)))))"
proof (intro conjI allI impI)
  fix a assume a: "Call_flow_directions a \<in> set (trace (run_one_step ext s))"
  from run_one_step_trace_flow_call [OF a] obtain tr0 s1 where
    c: "check_and_update_bcs ext s = (tr0, Inr s1)"
    and f: "Call_flow_directions a \<in> set (fst (calculate_flow_directions ext s1))"
    by blast
  from calculate_flow_directions_call [OF f] obtain st where
    "status_at_node ext (grd s1) = Inr st"
    "fd_baselevel_nodes a = find_baselevel_nodes st st"
    by auto
  with check_and_update_bcs_Inr(1) [OF c]
  show "\<exists>st. status_at_node ext (grd s) = Inr st
         \<and> set (fd_baselevel_nodes a) =
             {i. i < length st \<and>
                 (st ! i = FIXED_VALUE_BOUNDARY \<or> st ! i = FIXED_GRADIENT_BOUNDARY)}"
    by (auto simp: set_find_baselevel_nodes)
next
  fix tr0 s1 grad st
  assume h: "check_and_update_bcs ext s = (tr0, Inr s1)
        \<and> calc_grad_of_active_link ext (grd s1) (heap s1 (self_elevs (comp s1))) = Inr grad
        \<and> status_at_node ext (grd s) = Inr st"
  then have c: "check_and_update_bcs ext s = (tr0, Inr s1)"
    and g: "calc_grad_of_active_link ext (grd s1) (heap s1 (self_elevs (comp s1))) = Inr grad"
    and st: "status_at_node ext (grd s1) = Inr st"
    using check_and_update_bcs_Inr(1) [of ext s tr0 s1] by simp_all
  let ?bl = "find_baselevel_nodes st st"
  let ?a = "\<lparr>fd_elev = heap s1 (self_elevs (comp s1)),
             fd_active_links = self_active_links (comp s1),
             fd_tail_node = self_activelink_tail (comp s1),
             fd_head_node = self_activelink_head (comp s1),
             fd_link_slope = map uminus grad,
             fd_grid = grd s1,
             fd_baselevel_nodes = ?bl\<rparr>"
  have calc: "calculate_flow_directions ext s1 =
      ([Call_calc_grad_of_active_link (heap s1 (self_elevs (comp s1))),
        Call_status_at_node, Call_status_at_node, Call_flow_directions ?a],
       flow_directions ext ?a)"
    using g st by (simp add: calculate_flow_directions_def Let_def)
  have srt: "sorted ?bl \<and> distinct ?bl"
    by (simp add: find_baselevel_nodes_def sorted_where_true)
  have tr: "trace (run_one_step ext s)
      = tr0 @ [Call_calc_grad_of_active_link (heap s1 (self_elevs (comp s1))),
               Call_status_at_node, Call_status_at_node, Call_flow_directions ?a]"
    using c calc by (simp add: run_one_step_def Let_def split: sum.splits prod.splits)
  have fail: "final (run_one_step ext s) = s1 \<and> raised (run_one_step ext s) = Some e"
    if "flow_directions ext ?a = Inl e" for e
    using c calc that by (simp add: run_one_step_def)
  have ok: "final (run_one_step ext s)
              = snd (save_outputs r sl sk l (s1\<lparr>comp := (comp s1)\<lparr>self_sink := sk\<rparr>\<rparr>))
            \<and> raised (run_one_step ext s)
              = fst (save_outputs r sl sk l (s1\<lparr>comp := (comp s1)\<lparr>self_sink := sk\<rparr>\<rparr>))"
    if "flow_directions ext ?a = Inr (r, sl, sk, l)" for r sl sk l
    using c calc that by (simp add: run_one_step_def Let_def split: prod.splits)
  show "\<exists>bl. set bl = {i. i < length st \<and>
                   (st ! i = FIXED_VALUE_BOUNDARY \<or> st ! i = FIXED_GRADIENT_BOUNDARY)}
           \<and> sorted bl \<and> distinct bl
           \<and> trace (run_one_step ext s)
               = tr0 @ [Call_calc_grad_of_active_link (heap s1 (self_elevs (comp s1))),
                        Call_status_at_node, Call_status_at_node,
                        Call_flow_directions
                          \<lparr>fd_elev = heap s1 (self_elevs (comp s1)),
                           fd_active_links = self_active_links (comp s1),
                           fd_tail_node = self_activelink_tail (comp s1),
                           fd_head_node = self_activelink_head (comp s1),
                           fd_link_slope = map uminus grad,
                           fd_grid = grd s1,
                           fd_baselevel_nodes = bl\<rparr>]
           \<and> (\<forall>e. flow_directions ext
                      \<lparr>fd_elev = heap s1 (self_elevs (comp s1)),
                       fd_active_links = self_active_links (comp s1),
                       fd_tail_node = self_activelink_tail (comp s1),
                       fd_head_node = self_activelink_head (comp s1),
                       fd_link_slope = map uminus grad,
                       fd_grid = grd s1,
                       fd_baselevel_nodes = bl\<rparr> = Inl e \<longrightarrow>
                  final (run_one_step ext s) = s1
                  \<and> raised (run_one_step ext s) = Some e)
           \<and> (\<forall>r sl sk l. flow_directions ext
                      \<lparr>fd_elev = heap s1 (self_elevs (comp s1)),
                       fd_active_links = self_active_links (comp s1),
                       fd_tail_node = self_activelink_tail (comp s1),
                       fd_head_node = self_activelink_head (comp s1),
                       fd_link_slope = map uminus grad,
                       fd_grid = grd s1,
                       fd_baselevel_nodes = bl\<rparr> = Inr (r, sl, sk, l) \<longrightarrow>
                  final (run_one_step ext s)
                    = snd (save_outputs r sl sk l (s1\<lparr>comp := (comp s1)\<lparr>self_sink := sk\<rparr>\<rparr>))
                  \<and> raised (run_one_step ext s)
                    = fst (save_outputs r sl sk l
                             (s1\<lparr>comp := (comp s1)\<lparr>self_sink := sk\<rparr>\<rparr>)))"
    using srt tr fail ok
    by (intro exI [of _ ?bl]) (simp add: set_find_baselevel_nodes)
qed

theorem baselevel_nodes_passed_witness:
  "Call_flow_directions example_args \<in> set (trace (run_one_step example_ext example_state))
   \<and> status_at_node example_ext (grd example_state)
       = Inr [FIXED_VALUE_BOUNDARY, OTHER_STATUS 0, OTHER_STATUS 0]
   \<and> set (fd_baselevel_nodes example_args) = {0}
   \<and> flow_directions example_ext example_args
       = Inr ([0, 0, 2], [0, 3 / 2, 0], [0, 2], [- 1, 0, - 1])
   \<and> raised (run_one_step example_ext example_state) = None"
proof -
  have c: "Call_flow_directions example_args
             \<in> set (trace (run_one_step example_ext example_state))"
    by (simp add: example_run)
  have st: "status_at_node example_ext (grd example_state)
       = Inr [FIXED_VALUE_BOUNDARY, OTHER_STATUS 0, OTHER_STATUS 0]"
    by (simp add: example_ext_def)
  have b: "set (fd_baselevel_nodes example_args) = {0}"
    by (simp add: example_args_def)
  have f: "flow_directions example_ext example_args
       = Inr ([0, 0, 2], [0, 3 / 2, 0], [0, 2], [- 1, 0, - 1])"
    by (simp add: example_ext_def example_flow)
  have r: "raised (run_one_step example_ext example_state) = None"
    by (simp add: example_run)
  from baselevel_nodes_passed [where ext = example_ext and s = example_state,
      THEN conjunct1, rule_format, OF c]
    c st b f r
  show ?thesis by simp
qed

section \<open>Errors of the collaborators\<close>

text \<open>
  Claim C8. \<^verbatim>\<open>run_one_step\<close> handles no error: when \<^verbatim>\<open>updated_boundary_conditions\<close>,
  \<^verbatim>\<open>calc_grad_of_active_link\<close>, the read of \<^verbatim>\<open>status_at_node\<close> or \<^verbatim>\<open>flow_directions\<close> raises,
  the step raises that same exception, the failing call is the last call made (it is
  not made again and nothing is called after it), and the state is the one the failing
  call found.
\<close>

theorem external_errors_propagate:
  "(\<forall>e. self_bc_set_code (comp s) \<noteq> bc_set_code (grd s)
         \<and> updated_boundary_conditions ext (comp s) (grd s) = Inl e \<longrightarrow>
       run_one_step ext s
         = \<lparr>trace = [Call_updated_boundary_conditions], final = s, raised = Some e\<rparr>)
   \<and> (\<forall>tr0 s1 e. check_and_update_bcs ext s = (tr0, Inr s1) \<longrightarrow>
        (calc_grad_of_active_link ext (grd s1) (heap s1 (self_elevs (comp s1))) = Inl e \<longrightarrow>
           run_one_step ext s
             = \<lparr>trace = tr0 @ [Call_calc_grad_of_active_link (heap s1 (self_elevs (comp s1)))],
                final = s1, raised = Some e\<rparr>)
        \<and> (\<forall>grad. calc_grad_of_active_link ext (grd s1) (heap s1 (self_elevs (comp s1)))
                     = Inr grad
                   \<and> status_at_node ext (grd s1) = Inl e \<longrightarrow>
             run_one_step ext s
               = \<lparr>trace = tr0 @ [Call_calc_grad_of_active_link (heap s1 (self_elevs (comp s1))),
                                 Call_status_at_node],
                  final = s1, raised = Some e\<rparr>)
        \<and> (\<forall>grad st a. calc_grad_of_active_link ext (grd s1) (heap s1 (self_elevs (comp s1)))
                     = Inr grad
                   \<and> status_at_node ext (grd s1) = Inr st
                   \<and> a = \<lparr>fd_elev = heap s1 (self_elevs (comp s1)),
                          fd_active_links = self_active_links (comp s1),
                          fd_tail_node = self_activelink_tail (comp s1),
                          fd_head_node = self_activelink_head (comp s1),
                          fd_link_slope = map uminus grad,
                          fd_grid = grd s1,
                          fd_baselevel_nodes = find_baselevel_nodes st st\<rparr>
                   \<and> flow_directions ext a = Inl e \<longrightarrow>
             run_one_step ext s
               = \<lparr>trace = tr0 @ [Call_calc_grad_of_active_link (heap s1 (self_elevs (comp s1))),
                                 Call_status_at_node, Call_status_at_node,
                                 Call_flow_directions a],
                  final = s1, raised = Some e\<rparr>))"
  by (auto simp: run_one_step_def check_and_update_bcs_def calculate_flow_directions_def
      Let_def)

theorem external_errors_propagate_witness:
  "run_one_step failing_bc_ext example_state
     = \<lparr>trace = [Call_updated_boundary_conditions], final = example_state,
        raised = Some (OtherError 3)\<rparr>
   \<and> run_one_step failing_flow_ext example_state
     = \<lparr>trace = [Call_updated_boundary_conditions,
                  Call_calc_grad_of_active_link (FloatArr [0, 3 / 2, 1]),
                  Call_status_at_node, Call_status_at_node,
                  Call_flow_directions example_args],
        final = example_state\<lparr>comp := example_comp\<lparr>self_bc_set_code := 1\<rparr>\<rparr>,
        raised = Some (OtherError 7)\<rparr>"
proof -
  let ?s1 = "example_state\<lparr>comp := example_comp\<lparr>self_bc_set_code := 1\<rparr>\<rparr>"
  have differ: "self_bc_set_code (comp example_state) \<noteq> bc_set_code (grd example_state)"
    by (simp add: example_state_def example_comp_def example_grid_def)
  have bc: "updated_boundary_conditions failing_bc_ext (comp example_state) (grd example_state)
      = Inl (OtherError 3)"
    by (simp add: failing_bc_ext_def)
  from external_errors_propagate [of example_state failing_bc_ext] differ bc
  have first: "run_one_step failing_bc_ext example_state
     = \<lparr>trace = [Call_updated_boundary_conditions], final = example_state,
        raised = Some (OtherError 3)\<rparr>"
    by blast
  have chk: "check_and_update_bcs failing_flow_ext example_state
      = ([Call_updated_boundary_conditions], Inr ?s1)"
    by (simp add: check_and_update_bcs_def failing_flow_ext_def example_ext_def
        example_state_def example_comp_def example_grid_def)
  have z: "heap ?s1 (self_elevs (comp ?s1)) = FloatArr [0, 3 / 2, 1]"
    by (simp add: example_state_def example_comp_def example_heap_at)
  have g: "calc_grad_of_active_link failing_flow_ext (grd ?s1) (FloatArr [0, 3 / 2, 1])
      = Inr [3 / 2, - (1 / 2)]"
    by (simp add: failing_flow_ext_def example_ext_def)
  have st: "status_at_node failing_flow_ext (grd ?s1)
      = Inr [FIXED_VALUE_BOUNDARY, OTHER_STATUS 0, OTHER_STATUS 0]"
    by (simp add: failing_flow_ext_def example_ext_def)
  have a: "example_args = \<lparr>fd_elev = heap ?s1 (self_elevs (comp ?s1)),
                          fd_active_links = self_active_links (comp ?s1),
                          fd_tail_node = self_activelink_tail (comp ?s1),
                          fd_head_node = self_activelink_head (comp ?s1),
                          fd_link_slope = map uminus [3 / 2, - (1 / 2)],
                          fd_grid = grd ?s1,
                          fd_baselevel_nodes = find_baselevel_nodes
                            [FIXED_VALUE_BOUNDARY, OTHER_STATUS 0, OTHER_STATUS 0]
                            [FIXED_VALUE_BOUNDARY, OTHER_STATUS 0, OTHER_STATUS 0]\<rparr>"
    by (simp add: example_args_def example_baselevel z)
       (simp add: example_state_def example_comp_def example_heap_at)
  have fl: "flow_directions failing_flow_ext example_args = Inl (OtherError 7)"
    by (simp add: failing_flow_ext_def)
  from external_errors_propagate [of example_state failing_flow_ext, THEN conjunct2,
      rule_format, OF chk, THEN conjunct2, THEN conjunct2, rule_format,
      of "[3 / 2, - (1 / 2)]" "[FIXED_VALUE_BOUNDARY, OTHER_STATUS 0, OTHER_STATUS 0]"
         example_args "OtherError 7"]
    g st a fl z
  have second: "run_one_step failing_flow_ext example_state
     = \<lparr>trace = [Call_updated_boundary_conditions,
                  Call_calc_grad_of_active_link (FloatArr [0, 3 / 2, 1]),
                  Call_status_at_node, Call_status_at_node,
                  Call_flow_directions example_args],
        final = ?s1, raised = Some (OtherError 7)\<rparr>"
    by simp
  from first second show ?thesis by simp
qed

section \<open>What a step changes\<close>







section \<open>The sink flags\<close>

lemma as_bool_astype_BoolArr [simp]: "as_bool (astype d (BoolArr bs)) = bs"
  by (cases d) (simp_all add: map_idI)

lemma broadcast_to_zeros:
  "broadcast_to n (zeros_like_bool a) = Inr b \<Longrightarrow> b = BoolArr (replicate n False)"
  by (auto simp: broadcast_to_def zeros_like_bool_def split: if_splits)

lemma setitem_slice_zeros:
  "setitem_slice d (zeros_like_bool a) = Inr x \<Longrightarrow>
     as_bool x = replicate (len d) False \<and> len x = len d"
  by (auto simp: setitem_slice_def split: sum.splits dest!: broadcast_to_zeros)

lemma length_as_bool [simp]: "length (as_bool a) = len a"
  by (cases a) simp_all

lemma as_bool_put_True [simp]: "as_bool (put_True j a) = (as_bool a)[j := True]"
  by (cases a) (simp_all add: map_update)

lemma as_bool_fold_put_True:
  "i < len a \<Longrightarrow>
     as_bool (fold (\<lambda>k a. put_True (f k) a) idx a) ! i = (as_bool a ! i \<or> i \<in> f ` set idx)"
proof (induction idx arbitrary: a)
  case Nil
  then show ?case by simp
next
  case (Cons k idx)
  from Cons.prems have "i < len (put_True (f k) a)" by simp
  from Cons.IH [OF this] Cons.prems show ?case
    by (cases "i = f k") (auto simp: nth_list_update)
qed

lemma setitem_True_flags:
  assumes "setitem_True x idx = Inr y" and "i < len x"
  shows "as_bool y ! i =
           (as_bool x ! i \<or> (\<exists>k \<in> set idx. norm_index (len x) k = Some i))"
proof -
  from assms(1) have ok: "\<forall>k \<in> set idx. norm_index (len x) k \<noteq> None"
    and y: "y = fold (\<lambda>k a. put_True (the (norm_index (len x) k)) a) idx x"
    by (auto simp: setitem_True_def list_all_iff split: if_splits)
  have "(i \<in> (\<lambda>k. the (norm_index (len x) k)) ` set idx)
          = (\<exists>k \<in> set idx. norm_index (len x) k = Some i)"
    using ok by force
  with as_bool_fold_put_True [OF assms(2), of "\<lambda>k. the (norm_index (len x) k)" idx] y
  show ?thesis by simp
qed

lemma norm_index_nonneg:
  "0 \<le> k \<Longrightarrow> norm_index n k = Some i \<longleftrightarrow> (k = int i \<and> i < n)"
  by (auto simp: norm_index_def)

lemma save_outputs_sink_flag:
  assumes "save_outputs r sl sk l s = (None, s')"
  shows "\<exists>x y. field s' ''flow__sink_flag'' = Some y \<and> setitem_True x sk = Inr y
            \<and> as_bool x = replicate (len x) False \<and> len y = len x"
proof -
  from assms obtain s1 s2 s3 s4 where
    f4: "setitem_field ''flow__sink_flag''
           (\<lambda>d. setitem_slice d (zeros_like_bool (IntArr r))) s3 = Inr s4"
    and f5: "setitem_field ''flow__sink_flag'' (\<lambda>d. setitem_True d sk) s4 = Inr s'"
    by (auto simp: save_outputs_def split: sum.splits)
  from f4 obtain a x where a: "at_node (grd s3) ''flow__sink_flag'' = Some a"
    and x: "setitem_slice (heap s3 a) (zeros_like_bool (IntArr r)) = Inr x"
    and s4: "s4 = s3\<lparr>heap := (heap s3)(a := x)\<rparr>"
    by (auto simp: setitem_field_def split: option.splits sum.splits)
  from f5 a s4 obtain y where y: "setitem_True x sk = Inr y"
    and s': "s' = s4\<lparr>heap := (heap s4)(a := y)\<rparr>"
    by (auto simp: setitem_field_def split: option.splits sum.splits)
  from setitem_slice_zeros [OF x] have "as_bool x = replicate (len x) False" by simp
  moreover from setitem_True_shape [OF y] have "len y = len x" by simp
  moreover from a s4 s' have "field s' ''flow__sink_flag'' = Some y"
    by (simp add: field_def)
  ultimately show ?thesis using y by blast
qed

text \<open>
  Claim C9. After a step that completes, the field \<^verbatim>\<open>flow__sink_flag\<close> is true at exactly
  the positions that the entries of the sink array denote, the sink array being the one
  the flow-direction algorithm returned in this call (it is kept in \<^verbatim>\<open>self.sink\<close>). When no
  entry of the sink array is negative, these are the positions \<open>i\<close> that appear in the sink
  array. What the field held before the call plays no part.
\<close>

theorem sink_flag_iff_in_sink:
  assumes "raised (run_one_step ext s) = None"
  shows "\<exists>flags a r sl l.
           field (final (run_one_step ext s)) ''flow__sink_flag'' = Some flags
           \<and> Call_flow_directions a \<in> set (trace (run_one_step ext s))
           \<and> flow_directions ext a
               = Inr (r, sl, self_sink (comp (final (run_one_step ext s))), l)
           \<and> (\<forall>i < len flags. as_bool flags ! i
                 \<longleftrightarrow> (\<exists>k \<in> set (self_sink (comp (final (run_one_step ext s)))).
                        norm_index (len flags) k = Some i))
           \<and> ((\<forall>k \<in> set (self_sink (comp (final (run_one_step ext s)))). 0 \<le> k) \<longrightarrow>
                (\<forall>i < len flags. as_bool flags ! i
                   \<longleftrightarrow> int i \<in> set (self_sink (comp (final (run_one_step ext s))))))"
proof (cases rule: run_one_step_cases [of ext s])
  case (bc_fail tr0 e)
  with assms show ?thesis by simp
next
  case (fd_fail tr0 s1 tr1 e)
  with assms show ?thesis by simp
next
  case (saved tr0 s1 tr1 r sl sk l err s3)
  with assms(1) have err: "err = None" by simp
  from save_outputs_unchanged_but [OF saved(3)] have sk: "self_sink (comp s3) = sk"
    by (simp add: unchanged_but_def)
  from calculate_flow_directions_Inr [OF saved(2)] obtain a where
    a: "Call_flow_directions a \<in> set tr1" "flow_directions ext a = Inr (r, sl, sk, l)"
    by blast
  from save_outputs_sink_flag [OF saved(3) [unfolded err]] obtain x y where
    y: "field s3 ''flow__sink_flag'' = Some y" "setitem_True x sk = Inr y"
    and x: "as_bool x = replicate (len x) False" "len y = len x"
    by blast
  have gen: "as_bool y ! i \<longleftrightarrow> (\<exists>k \<in> set sk. norm_index (len y) k = Some i)"
    if "i < len y" for i
  proof -
    from that x have i: "i < len x" by simp
    from setitem_True_flags [OF y(2) i] x i show ?thesis by simp
  qed
  have nonneg: "as_bool y ! i \<longleftrightarrow> int i \<in> set sk"
    if "i < len y" and "\<forall>k \<in> set sk. 0 \<le> k" for i
    using gen [OF that(1)] that by (auto simp: norm_index_nonneg)
  from y(1) a sk saved(4) gen nonneg show ?thesis
    by (intro exI [of _ y] exI [of _ a] exI [of _ r] exI [of _ sl] exI [of _ l]) simp
qed

theorem sink_flag_iff_in_sink_witness:
  "raised (run_one_step example_ext example_state) = None
   \<and> field example_state ''flow__sink_flag'' = Some (IntArr [0, 1, 0])
   \<and> field (final (run_one_step example_ext example_state)) ''flow__sink_flag''
       = Some (IntArr [1, 0, 1])
   \<and> self_sink (comp (final (run_one_step example_ext example_state))) = [0, 2]
   \<and> as_bool (IntArr [1, 0, 1]) = [True, False, True]"
proof -
  have r: "raised (run_one_step example_ext example_state) = None"
    by (simp add: example_run)
  have f0: "field example_state ''flow__sink_flag'' = Some (IntArr [0, 1, 0])"
    by (simp add: field_def example_state_def example_at_node example_heap_at)
  have f1: "field (final (run_one_step example_ext example_state)) ''flow__sink_flag''
       = Some (IntArr [1, 0, 1])"
    by (simp add: example_run field_def example_state_after_def example_at_node
        example_heap_after_def)
  have k: "self_sink (comp (final (run_one_step example_ext example_state))) = [0, 2]"
    by (simp add: example_run example_state_after_def)
  from sink_flag_iff_in_sink [OF r] r f0 f1 k show ?thesis by simp
qed

section \<open>The outputs of the flow-direction algorithm on the grid\<close>

lemma receivers_ok_init:
  "receivers_ok n (map int [0..<n], replicate n 0, replicate n BAD_INDEX_VALUE)"
  by (simp add: receivers_ok_def)

lemma receivers_ok_adjust:
  "receivers_ok n acc \<Longrightarrow> list_all (\<lambda>(lid, t, h, g). t < n \<and> h < n) links
     \<Longrightarrow> receivers_ok n (adjust_flow_receivers z links acc)"
proof (induction z links acc rule: adjust_flow_receivers.induct)
  case (1 z acc)
  then show ?case by simp
next
  case (2 z lid t h g links r s l)
  from "2.prems" have th: "t < n" "h < n" and rest: "list_all (\<lambda>(lid, t, h, g). t < n \<and> h < n) links"
    by simp_all
  let ?acc = "if z ! h < z ! t \<and> s ! t < g then (r[t := int h], s[t := g], l[t := lid])
        else if z ! t < z ! h \<and> s ! h < - g then (r[h := int t], s[h := - g], l[h := lid])
        else (r, s, l)"
  have "receivers_ok n ?acc"
    using "2.prems"(1) th
    by (auto simp: receivers_ok_def nth_list_update)
  from "2.IH" [OF this rest] show ?case by simp
qed

lemma receivers_ok_set_baselevel:
  "receivers_ok n acc \<Longrightarrow> list_all (\<lambda>b. b < n) bs
     \<Longrightarrow> receivers_ok n (set_baselevel bs acc)"
proof (induction bs acc rule: set_baselevel.induct)
  case (1 acc)
  then show ?case by simp
next
  case (2 b bs r s l)
  from "2.prems" have "receivers_ok n (r[b := int b], s[b := 0], l[b := BAD_INDEX_VALUE])"
    by (auto simp: receivers_ok_def nth_list_update)
  with "2.IH" "2.prems" show ?case by simp
qed

lemma flow_directions_result:
  assumes "flow_direction_DN_flow_directions a = Inr (r, s, sink, l)"
  shows "receivers_ok (len (fd_elev a)) (r, s, l)
         \<and> sink = filter (\<lambda>k. r ! nat k = k) (map int [0..<len (fd_elev a)])"
proof -
  let ?n = "len (fd_elev a)"
  have n: "length (as_float (fd_elev a)) = ?n" by (cases "fd_elev a") simp_all
  let ?links = "zip (fd_active_links a)
                          (zip (map nat (fd_tail_node a))
                            (zip (map nat (fd_head_node a)) (fd_link_slope a)))"
  let ?acc = "set_baselevel (fd_baselevel_nodes a)
                (adjust_flow_receivers (as_float (fd_elev a)) ?links
                   (map int [0..<?n], replicate ?n 0, replicate ?n BAD_INDEX_VALUE))"
  from assms have ends: "list_all (\<lambda>k. 0 \<le> k \<and> k < int ?n) (fd_tail_node a @ fd_head_node a)"
    and bl: "list_all (\<lambda>b. b < ?n) (fd_baselevel_nodes a)"
    and res: "?acc = (r, s, l)"
    and sink: "sink = filter (\<lambda>k. r ! nat k = k) (map int [0..<?n])"
    by (auto simp: flow_direction_DN_flow_directions_def Let_def n split: if_splits prod.splits)
  have "list_all (\<lambda>(lid, t, h, g). t < ?n \<and> h < ?n) ?links"
    unfolding list_all_iff
  proof (clarify, intro conjI)
    fix lid t h g
    assume "(lid, t, h, g) \<in> set ?links"
    then have "(t, h, g) \<in> set (zip (map nat (fd_tail_node a))
                            (zip (map nat (fd_head_node a)) (fd_link_slope a)))"
      by (rule set_zip_rightD)
    then have t: "t \<in> set (map nat (fd_tail_node a))"
      and "(h, g) \<in> set (zip (map nat (fd_head_node a)) (fd_link_slope a))"
      by (auto dest: set_zip_leftD set_zip_rightD)
    then have h: "h \<in> set (map nat (fd_head_node a))"
      by (auto dest: set_zip_leftD)
    have lt: "nat k < ?n" if "k \<in> set (fd_tail_node a) \<union> set (fd_head_node a)" for k
    proof -
      from ends that have "0 \<le> k \<and> k < int ?n" by (auto simp: list_all_iff)
      then show ?thesis by linarith
    qed
    from t lt show "t < ?n" by auto
    from h lt show "h < ?n" by auto
  qed
  from receivers_ok_set_baselevel [OF receivers_ok_adjust [OF receivers_ok_init this] bl]
  have "receivers_ok ?n ?acc" .
  with res sink show ?thesis by simp
qed

lemma fields_ok_cong:
  "grd s' = grd s \<Longrightarrow> heap s' = heap s \<Longrightarrow> fields_ok s' = fields_ok s"
  by (simp add: fields_ok_def split: option.splits)

lemma save_outputs_fields:
  assumes "save_outputs r sl sk l s = (None, s')" and "fields_ok s"
  shows "\<exists>a1 a2 a3 a4 x.
           at_node (grd s) ''flow__receiver_node'' = Some a1
           \<and> at_node (grd s) ''topographic__steepest_slope'' = Some a2
           \<and> at_node (grd s) ''flow__link_to_receiver_node'' = Some a3
           \<and> at_node (grd s) ''flow__sink_flag'' = Some a4
           \<and> grd s' = grd s
           \<and> setitem_slice (heap s a1) (IntArr r) = Inr (heap s' a1)
           \<and> setitem_slice (heap s a2) (FloatArr sl) = Inr (heap s' a2)
           \<and> setitem_slice (heap s a3) (IntArr l) = Inr (heap s' a3)
           \<and> setitem_slice (heap s a4) (zeros_like_bool (IntArr r)) = Inr x
           \<and> setitem_True x sk = Inr (heap s' a4)"
  using assms
  by (auto simp: save_outputs_def setitem_field_def fields_ok_def
      split: sum.splits option.splits)

lemma setitem_slice_int_nth:
  assumes "setitem_slice d (IntArr r) = Inr y" and "dtype_of d = dt_int"
    and "i < len d" and "i < length r"
  shows "dtype_of y = dt_int \<and> len y = len d \<and> as_int y ! i = r ! i"
proof (cases "length r = len d")
  case True
  with assms show ?thesis by (auto simp: setitem_slice_def broadcast_to_def)
next
  case False
  with assms(1) have one: "length r = 1"
    by (auto simp: setitem_slice_def broadcast_to_def split: if_splits)
  with assms(4) have i: "i = 0" by simp
  from one have "hd r = r ! 0" by (cases r) simp_all
  with assms False one i show ?thesis by (auto simp: setitem_slice_def broadcast_to_def)
qed

lemma setitem_slice_float_set:
  assumes "setitem_slice d (FloatArr sl) = Inr y" and "dtype_of d = dt_float"
  shows "dtype_of y = dt_float \<and> len y = len d \<and> set (as_float y) \<subseteq> set sl"
proof (cases "length sl = len d")
  case True
  with assms show ?thesis by (auto simp: setitem_slice_def broadcast_to_def)
next
  case False
  with assms(1) have one: "length sl = 1"
    by (auto simp: setitem_slice_def broadcast_to_def split: if_splits)
  then have "hd sl \<in> set sl" by (cases sl) simp_all
  with assms False one show ?thesis
    by (auto simp: setitem_slice_def broadcast_to_def)
qed

lemma run_one_step_outputs:
  assumes fd: "flow_directions ext = flow_direction_DN_flow_directions"
    and ok: "fields_ok s"
    and fin: "raised (run_one_step ext s) = None"
  shows "\<exists>flags recv slope link.
           field (final (run_one_step ext s)) ''flow__sink_flag'' = Some flags
           \<and> field (final (run_one_step ext s)) ''flow__receiver_node'' = Some recv
           \<and> field (final (run_one_step ext s)) ''topographic__steepest_slope'' = Some slope
           \<and> field (final (run_one_step ext s)) ''flow__link_to_receiver_node'' = Some link
           \<and> dtype_of recv = dt_int \<and> dtype_of slope = dt_float \<and> dtype_of link = dt_int
           \<and> len recv = len flags \<and> len slope = len flags \<and> len link = len flags
           \<and> (\<forall>i < len flags. as_bool flags ! i \<longrightarrow>
                 as_int recv ! i = int i \<and> as_int link ! i = BAD_INDEX_VALUE)
           \<and> (\<forall>x \<in> set (as_float slope). 0 \<le> x)"
proof (cases rule: run_one_step_cases [of ext s])
  case (bc_fail tr0 e)
  with fin show ?thesis by simp
next
  case (fd_fail tr0 s1 tr1 e)
  with fin show ?thesis by simp
next
  case (saved tr0 s1 tr1 r sl sk l err s3)
  let ?s2 = "s1\<lparr>comp := (comp s1)\<lparr>self_sink := sk\<rparr>\<rparr>"
  from saved fin have sv: "save_outputs r sl sk l ?s2 = (None, s3)" by simp
  from check_and_update_bcs_Inr [OF saved(1)] ok have ok2: "fields_ok ?s2"
    by (simp add: fields_ok_cong [of ?s2 s])
  from save_outputs_fields [OF sv ok2] obtain a1 a2 a3 a4 x where
    a: "at_node (grd s3) ''flow__receiver_node'' = Some a1"
       "at_node (grd s3) ''topographic__steepest_slope'' = Some a2"
       "at_node (grd s3) ''flow__link_to_receiver_node'' = Some a3"
       "at_node (grd s3) ''flow__sink_flag'' = Some a4"
    and a': "at_node (grd ?s2) ''flow__receiver_node'' = Some a1"
       "at_node (grd ?s2) ''topographic__steepest_slope'' = Some a2"
       "at_node (grd ?s2) ''flow__link_to_receiver_node'' = Some a3"
       "at_node (grd ?s2) ''flow__sink_flag'' = Some a4"
    and w1: "setitem_slice (heap ?s2 a1) (IntArr r) = Inr (heap s3 a1)"
    and w2: "setitem_slice (heap ?s2 a2) (FloatArr sl) = Inr (heap s3 a2)"
    and w3: "setitem_slice (heap ?s2 a3) (IntArr l) = Inr (heap s3 a3)"
    and w4: "setitem_slice (heap ?s2 a4) (zeros_like_bool (IntArr r)) = Inr x"
    and w5: "setitem_True x sk = Inr (heap s3 a4)"
    by auto
  from ok2 a' have dt: "dtype_of (heap ?s2 a1) = dt_int" "dtype_of (heap ?s2 a2) = dt_float"
      "dtype_of (heap ?s2 a3) = dt_int"
    and ln: "len (heap ?s2 a2) = len (heap ?s2 a1)" "len (heap ?s2 a3) = len (heap ?s2 a1)"
      "len (heap ?s2 a4) = len (heap ?s2 a1)"
    by (simp_all add: fields_ok_def)
  let ?N = "len (heap ?s2 a1)"
  from calculate_flow_directions_Inr [OF saved(2)] fd obtain args where
    "flow_direction_DN_flow_directions args = Inr (r, sl, sk, l)" by auto
  from flow_directions_result [OF this] obtain n where
    rok: "receivers_ok n (r, sl, l)"
    and sk: "sk = filter (\<lambda>k. r ! nat k = k) (map int [0..<n])"
    by blast
  from setitem_slice_zeros [OF w4] ln have x: "as_bool x = replicate (len x) False" "len x = ?N"
    by simp_all
  from setitem_True_shape [OF w5] x have l4: "len (heap s3 a4) = ?N" by simp
  from setitem_slice_shape [OF w1] dt have s1: "dtype_of (heap s3 a1) = dt_int" "len (heap s3 a1) = ?N"
    by simp_all
  from setitem_slice_float_set [OF w2 dt(2)] ln
  have s2: "dtype_of (heap s3 a2) = dt_float" "len (heap s3 a2) = ?N"
    "set (as_float (heap s3 a2)) \<subseteq> set sl" by simp_all
  from setitem_slice_shape [OF w3] dt ln have s3: "dtype_of (heap s3 a3) = dt_int" "len (heap s3 a3) = ?N"
    by simp_all
  have flagged: "as_int (heap s3 a1) ! i = int i \<and> as_int (heap s3 a3) ! i = BAD_INDEX_VALUE"
    if i: "i < ?N" and f: "as_bool (heap s3 a4) ! i" for i
  proof -
    from i x have ix: "i < len x" by simp
    from setitem_True_flags [OF w5 ix] x ix f obtain k where
      k: "k \<in> set sk" "norm_index ?N k = Some i" by auto
    from k(1) sk have k0: "0 \<le> k" "nat k < n" "r ! nat k = k" by auto
    with k(2) have ki: "k = int i" by (simp add: norm_index_nonneg)
    with k0 have in': "i < n" and ri: "r ! i = int i" by simp_all
    from rok in' ri have li: "l ! i = BAD_INDEX_VALUE" and lens: "length r = n" "length l = n"
      by (simp_all add: receivers_ok_def)
    from setitem_slice_int_nth [OF w1 dt(1) i] in' lens ri
    have "as_int (heap s3 a1) ! i = int i" by simp
    moreover from setitem_slice_int_nth [OF w3 dt(3), of i] i ln in' lens li
    have "as_int (heap s3 a3) ! i = BAD_INDEX_VALUE" by simp
    ultimately show ?thesis by simp
  qed
  have nonneg: "0 \<le> v" if "v \<in> set (as_float (heap s3 a2))" for v
  proof -
    from that s2(3) have "v \<in> set sl" by auto
    then obtain i where "i < length sl" "sl ! i = v" by (auto simp: in_set_conv_nth)
    with rok show ?thesis by (auto simp: receivers_ok_def)
  qed
  from a s1 s2 s3 l4 flagged nonneg saved(4) show ?thesis
    by (simp add: field_def)
qed

lemma example_fields_ok: "fields_ok example_state"
  by (simp add: fields_ok_def example_state_def example_at_node example_heap_at)

lemma example_flow_directions:
  "flow_directions example_ext = flow_direction_DN_flow_directions"
  by (simp add: example_ext_def)

lemma example_raised: "raised (run_one_step example_ext example_state) = None"
  by (simp add: example_run)

lemma example_fields_after:
  "field (final (run_one_step example_ext example_state)) ''flow__receiver_node''
     = Some (IntArr [0, 0, 2])"
  "field (final (run_one_step example_ext example_state)) ''topographic__steepest_slope''
     = Some (FloatArr [0, 3 / 2, 0])"
  "field (final (run_one_step example_ext example_state)) ''flow__link_to_receiver_node''
     = Some (IntArr [- 1, 0, - 1])"
  "field (final (run_one_step example_ext example_state)) ''flow__sink_flag''
     = Some (IntArr [1, 0, 1])"
  by (simp_all add: example_run field_def example_state_after_def example_at_node
      example_heap_after_def)

text \<open>
  Claim C3. With the flow-direction algorithm as the spec describes it and the four output
  fields as the parent constructor creates them, after a step that completes every node
  flagged in \<^verbatim>\<open>flow__sink_flag\<close> has its own id in \<^verbatim>\<open>flow__receiver_node\<close>.
\<close>

theorem sink_receiver_is_own_id:
  assumes "flow_directions ext = flow_direction_DN_flow_directions"
    and "fields_ok s"
    and "raised (run_one_step ext s) = None"
  shows "\<exists>flags recv.
           field (final (run_one_step ext s)) ''flow__sink_flag'' = Some flags
           \<and> field (final (run_one_step ext s)) ''flow__receiver_node'' = Some recv
           \<and> dtype_of recv = dt_int \<and> len recv = len flags
           \<and> (\<forall>i < len flags. as_bool flags ! i \<longrightarrow> as_int recv ! i = int i)"
  using run_one_step_outputs [OF assms] by blast

theorem sink_receiver_is_own_id_witness:
  "flow_directions example_ext = flow_direction_DN_flow_directions
   \<and> fields_ok example_state
   \<and> raised (run_one_step example_ext example_state) = None
   \<and> field (final (run_one_step example_ext example_state)) ''flow__sink_flag''
       = Some (IntArr [1, 0, 1])
   \<and> field (final (run_one_step example_ext example_state)) ''flow__receiver_node''
       = Some (IntArr [0, 0, 2])"
  using sink_receiver_is_own_id [OF example_flow_directions example_fields_ok example_raised]
    example_flow_directions example_fields_ok example_raised example_fields_after
  by simp

text \<open>
  Claim C4. Under the same conditions every node flagged in \<^verbatim>\<open>flow__sink_flag\<close> has the
  sentinel \<^verbatim>\<open>BAD_INDEX_VALUE\<close>, which is \<open>-1\<close>, in \<^verbatim>\<open>flow__link_to_receiver_node\<close>.
\<close>

theorem sink_link_is_bad_index:
  assumes "flow_directions ext = flow_direction_DN_flow_directions"
    and "fields_ok s"
    and "raised (run_one_step ext s) = None"
  shows "\<exists>flags link.
           field (final (run_one_step ext s)) ''flow__sink_flag'' = Some flags
           \<and> field (final (run_one_step ext s)) ''flow__link_to_receiver_node'' = Some link
           \<and> dtype_of link = dt_int \<and> len link = len flags
           \<and> (\<forall>i < len flags. as_bool flags ! i \<longrightarrow> as_int link ! i = BAD_INDEX_VALUE)
           \<and> BAD_INDEX_VALUE = - 1"
  using run_one_step_outputs [OF assms] by (simp add: BAD_INDEX_VALUE_def) blast

theorem sink_link_is_bad_index_witness:
  "flow_directions example_ext = flow_direction_DN_flow_directions
   \<and> fields_ok example_state
   \<and> raised (run_one_step example_ext example_state) = None
   \<and> field (final (run_one_step example_ext example_state)) ''flow__sink_flag''
       = Some (IntArr [1, 0, 1])
   \<and> field (final (run_one_step example_ext example_state)) ''flow__link_to_receiver_node''
       = Some (IntArr [- 1, 0, - 1])"
  using sink_link_is_bad_index [OF example_flow_directions example_fields_ok example_raised]
    example_flow_directions example_fields_ok example_raised example_fields_after
  by simp

text \<open>
  Claim C5. Under the same conditions no entry of \<^verbatim>\<open>topographic__steepest_slope\<close> is
  negative, whatever the elevation array holds and whatever gradients
  \<^verbatim>\<open>calc_grad_of_active_link\<close> returns.
\<close>

theorem steepest_slope_nonnegative:
  assumes "flow_directions ext = flow_direction_DN_flow_directions"
    and "fields_ok s"
    and "raised (run_one_step ext s) = None"
  shows "\<exists>slope.
           field (final (run_one_step ext s)) ''topographic__steepest_slope'' = Some slope
           \<and> dtype_of slope = dt_float
           \<and> (\<forall>x \<in> set (as_float slope). 0 \<le> x)"
  using run_one_step_outputs [OF assms] by blast

theorem steepest_slope_nonnegative_witness:
  "flow_directions example_ext = flow_direction_DN_flow_directions
   \<and> fields_ok example_state
   \<and> raised (run_one_step example_ext example_state) = None
   \<and> field (final (run_one_step example_ext example_state)) ''topographic__steepest_slope''
       = Some (FloatArr [0, 3 / 2, 0])"
  using steepest_slope_nonnegative [OF example_flow_directions example_fields_ok example_raised]
    example_flow_directions example_fields_ok example_raised example_fields_after
  by simp

end
